theory Spec2Isabelle
  imports Main "HOL-Library.Word" "HOL-Library.Sublist"
begin

unbundle bit_operations_syntax

chapter \<open>Z8000 standalone emulator: compatibility shim and CPU core\<close>

section \<open>The compatibility shim (include/emu.h)\<close>

subsection \<open>Basic integer types\<close>

type_synonym u8 = "8 word"
type_synonym u16 = "16 word"
type_synonym u32 = "32 word"
type_synonym u64 = "64 word"

text \<open>A 4-bit register field of an instruction word.\<close>

type_synonym nibble = "4 word"

text \<open>\<^verbatim>\<open>enum endianness_t { ENDIANNESS_LITTLE = 0, ENDIANNESS_BIG = 1 };\<close>\<close>

datatype endianness_t = ENDIANNESS_LITTLE | ENDIANNESS_BIG

subsection \<open>Byte swap helpers\<close>

text \<open>
  \<^verbatim>\<open>inline u16 swapendian_int16(u16 val) { return (val >> 8) | (val << 8); }\<close>

  The operand is promoted to a 32-bit \<open>int\<close> before the shifts, so \<open>val << 8\<close> keeps its
  upper byte in bits 16..23; the conversion of the result back to \<open>u16\<close> drops them.
\<close>

definition swapendian_int16 :: "u16 \<Rightarrow> u16" where
  "swapendian_int16 val =
     (ucast ((drop_bit 8 (ucast val :: u32)) OR (push_bit 8 (ucast val :: u32))) :: u16)"

text \<open>
  \<^verbatim>\<open>inline u32 swapendian_int32(u32 val) {
    return ((val >> 24) & 0xff) | ((val >> 8) & 0xff00) |
           ((val << 8) & 0xff0000) | ((val << 24) & 0xff000000); }\<close>
\<close>

definition swapendian_int32 :: "u32 \<Rightarrow> u32" where
  "swapendian_int32 val =
     ((drop_bit 24 val) AND 0xff) OR ((drop_bit 8 val) AND 0xff00) OR
     ((push_bit 8 val) AND 0xff0000) OR ((push_bit 24 val) AND 0xff000000)"

text \<open>Byte \<open>k\<close> of a value, counted from the least significant end.\<close>

definition byte16 :: "nat \<Rightarrow> u16 \<Rightarrow> u8" where
  "byte16 k v = ucast (drop_bit (8 * k) v)"

definition byte32 :: "nat \<Rightarrow> u32 \<Rightarrow> u8" where
  "byte32 k v = ucast (drop_bit (8 * k) v)"

definition byte64 :: "nat \<Rightarrow> u64 \<Rightarrow> u8" where
  "byte64 k v = ucast (drop_bit (8 * k) v)"

text \<open>A word from its bytes, most significant byte first.\<close>

definition make_u16 :: "u8 \<Rightarrow> u8 \<Rightarrow> u16" where
  "make_u16 hi lo = word_cat hi lo"

definition make_u32 :: "u8 \<Rightarrow> u8 \<Rightarrow> u8 \<Rightarrow> u8 \<Rightarrow> u32" where
  "make_u32 b3 b2 b1 b0 = word_cat (make_u16 b3 b2) (make_u16 b1 b0)"

subsection \<open>Stub device callbacks\<close>

text \<open>
  \<^verbatim>\<open>template<typename T> class devcb_read { public:
    template<int N> class array { public:
        void resolve_all_safe(T default_val) {}
        T operator[](int index) const { return m_default; }
        T operator()(int param) const { return m_default; }
    private:
        T m_default = 0;
    }; };\<close>

  The object has the single member \<open>m_default\<close>; a freshly constructed array holds the
  default member initialiser.
\<close>

record 'a devcb_read_array =
  m_default :: 'a

definition devcb_read_array_new :: "('a :: zero) devcb_read_array" where
  "devcb_read_array_new = \<lparr>m_default = 0\<rparr>"

definition resolve_all_safe :: "'a \<Rightarrow> 'a devcb_read_array \<Rightarrow> 'a devcb_read_array" where
  "resolve_all_safe default_val a = a"

definition array_subscript :: "'a devcb_read_array \<Rightarrow> int \<Rightarrow> 'a" where
  "array_subscript a index = m_default a"

definition array_call :: "'a devcb_read_array \<Rightarrow> int \<Rightarrow> 'a" where
  "array_call a param = m_default a"

subsection \<open>string\_format\<close>

text \<open>
  \<^verbatim>\<open>template<typename... Args>
  std::string string_format(const char* fmt, Args... args) {
      char buf[256];
      snprintf(buf, sizeof(buf), fmt, args...);
      return std::string(buf);
  }\<close>

  The conversion of the format and its arguments into characters is the C library's; the
  model takes its complete output \<open>out\<close> as a parameter. \<open>snprintf\<close> stores at most
  \<open>n - 1\<close> of these characters (\<open>n\<close> is its size argument) and then the terminating
  NUL, and leaves the rest of the buffer as it was; with \<open>n = 0\<close> it stores nothing. \<open>buf0\<close> is the indeterminate
  initial content of the local array.
\<close>

definition NUL :: char where
  "NUL = CHR 0x00"

definition snprintf :: "char list \<Rightarrow> nat \<Rightarrow> string \<Rightarrow> char list" where
  "snprintf buf n out =
     (if n = 0 then buf
      else take (n - 1) out @ [NUL] @ drop (min (length out) (n - 1) + 1) buf)"

text \<open>
  \<open>std::string(const char*)\<close> copies the characters before the first NUL. Without a NUL
  in the array the constructor reads past its end: \<open>None\<close>.
\<close>

definition std_string :: "char list \<Rightarrow> string option" where
  "std_string buf = (if NUL \<in> set buf then Some (takeWhile (\<lambda>c. c \<noteq> NUL) buf) else None)"

definition string_format :: "char list \<Rightarrow> string \<Rightarrow> string option" where
  "string_format buf0 out = std_string (snprintf buf0 256 out)"


subsection \<open>Endian-aware byte index macros\<close>

text \<open>
  \<^verbatim>\<open>#if defined(__BYTE_ORDER__) && __BYTE_ORDER__ == __ORDER_BIG_ENDIAN__
    #define BYTE8_XOR_BE(x) (x)
    #define BYTE4_XOR_BE(x) (x)
    #define BYTE_XOR_BE(x)  (x)
#else
    #define BYTE8_XOR_BE(x) ((x) ^ 3)
    #define BYTE4_XOR_BE(x) ((x) ^ 1)
    #define BYTE_XOR_BE(x)  (x)
#endif\<close>

  The branch is chosen at compile time by the byte order of the host; the model takes
  the host's byte order as the parameter \<open>host\<close>.
\<close>

definition BYTE8_XOR_BE :: "endianness_t \<Rightarrow> nat \<Rightarrow> nat" where
  "BYTE8_XOR_BE host x = (case host of ENDIANNESS_BIG \<Rightarrow> x | ENDIANNESS_LITTLE \<Rightarrow> x XOR 3)"

definition BYTE4_XOR_BE :: "endianness_t \<Rightarrow> nat \<Rightarrow> nat" where
  "BYTE4_XOR_BE host x = (case host of ENDIANNESS_BIG \<Rightarrow> x | ENDIANNESS_LITTLE \<Rightarrow> x XOR 1)"

definition BYTE_XOR_BE :: "endianness_t \<Rightarrow> nat \<Rightarrow> nat" where
  "BYTE_XOR_BE host x = (case host of ENDIANNESS_BIG \<Rightarrow> x | ENDIANNESS_LITTLE \<Rightarrow> x)"

section \<open>The register file\<close>

text \<open>
  The register union and the accessor macros that use the index macros are declared in
  include/z8000.h and include/z8000cpu.h, which are not among the sources. emu.h
  documents them:

  \<^verbatim>\<open>// The Z8000 register file has:
// - Word registers R0-R15 accessed via RW(n) = W[BYTE4_XOR_BE(n)]
// - Byte registers RH0-RL7 accessed via RB(n) = B[BYTE8_XOR_BE(formula(n))]
// - Long registers RR0,RR2,etc accessed via RL(n) = L[BYTE_XOR_BE(n>>1)]\<close>

  \<open>RW\<close>, \<open>RB\<close> and \<open>RL\<close> below follow these three lines. What the lines leave open (the
  union itself, \<open>formula\<close>, the quad view) is modelled from the specification.
\<close>

text \<open>
  Modelled from the spec: the union behind \<open>B\<close>, \<open>W\<close> and \<open>L\<close> (include/z8000.h is
  missing). Spec 2: "a 256-bit bank providing 16 word registers with aliased views as 16
  bytes, 8 longs, and 4 quads"; spec 3.1: "the implementation must choose a single
  storage representation [...] and derive all views from it"; spec 9: "a single 32-byte
  backing buffer with accessor functions". The storage is the array of host bytes
  \<open>B[i]\<close>; \<open>W[j]\<close> and \<open>L[k]\<close> are the 16-bit and 32-bit elements at the same
  addresses, which the host reads and writes in its own byte order.
\<close>

type_synonym regfile = "nat \<Rightarrow> u8"

definition W_get :: "endianness_t \<Rightarrow> regfile \<Rightarrow> nat \<Rightarrow> u16" where
  "W_get host rf j =
     (case host of
        ENDIANNESS_LITTLE \<Rightarrow> make_u16 (rf (2 * j + 1)) (rf (2 * j))
      | ENDIANNESS_BIG \<Rightarrow> make_u16 (rf (2 * j)) (rf (2 * j + 1)))"

definition W_set :: "endianness_t \<Rightarrow> regfile \<Rightarrow> nat \<Rightarrow> u16 \<Rightarrow> regfile" where
  "W_set host rf j v =
     (case host of
        ENDIANNESS_LITTLE \<Rightarrow> rf(2 * j := byte16 0 v, 2 * j + 1 := byte16 1 v)
      | ENDIANNESS_BIG \<Rightarrow> rf(2 * j := byte16 1 v, 2 * j + 1 := byte16 0 v))"

definition L_get :: "endianness_t \<Rightarrow> regfile \<Rightarrow> nat \<Rightarrow> u32" where
  "L_get host rf k =
     (case host of
        ENDIANNESS_LITTLE \<Rightarrow>
          make_u32 (rf (4 * k + 3)) (rf (4 * k + 2)) (rf (4 * k + 1)) (rf (4 * k))
      | ENDIANNESS_BIG \<Rightarrow>
          make_u32 (rf (4 * k)) (rf (4 * k + 1)) (rf (4 * k + 2)) (rf (4 * k + 3)))"

definition L_set :: "endianness_t \<Rightarrow> regfile \<Rightarrow> nat \<Rightarrow> u32 \<Rightarrow> regfile" where
  "L_set host rf k v =
     (case host of
        ENDIANNESS_LITTLE \<Rightarrow>
          rf(4 * k := byte32 0 v, 4 * k + 1 := byte32 1 v,
             4 * k + 2 := byte32 2 v, 4 * k + 3 := byte32 3 v)
      | ENDIANNESS_BIG \<Rightarrow>
          rf(4 * k := byte32 3 v, 4 * k + 1 := byte32 2 v,
             4 * k + 2 := byte32 1 v, 4 * k + 3 := byte32 0 v))"

text \<open>
  Modelled from the spec: \<open>formula\<close> of the byte accessor (include/z8000cpu.h is
  missing). Spec 4.1: "Byte RH(k) is at offset (k<<1) XOR 3, RL(k) at (k<<1) XOR 3 XOR 1
  in the packed byte view (i.e. the standard BYTE8_XOR_BE trick)"; spec 3.1: "Only
  registers 0..7 have byte aliases". A byte register is named by its half and its
  register number \<open>k\<close>; \<open>RLo k\<close> is the low byte RLk (the name \<open>RL\<close> is the long
  accessor of emu.h).
\<close>

datatype byte_reg = RH "3 word" | RLo "3 word"

fun RB_formula :: "byte_reg \<Rightarrow> nat" where
  "RB_formula (RH k) = push_bit 1 (unat k)"
| "RB_formula (RLo k) = push_bit 1 (unat k) XOR 1"

text \<open>
  The accessors as emu.h documents them. Each macro is an lvalue in the C++ source; the
  model has a reading and a writing function for each. \<open>n\<close> is the 4-bit register field
  of the instruction.
\<close>

definition RW :: "endianness_t \<Rightarrow> regfile \<Rightarrow> nibble \<Rightarrow> u16" where
  "RW host rf n = W_get host rf (BYTE4_XOR_BE host (unat n))"

definition set_RW :: "endianness_t \<Rightarrow> regfile \<Rightarrow> nibble \<Rightarrow> u16 \<Rightarrow> regfile" where
  "set_RW host rf n v = W_set host rf (BYTE4_XOR_BE host (unat n)) v"

definition RB :: "endianness_t \<Rightarrow> regfile \<Rightarrow> byte_reg \<Rightarrow> u8" where
  "RB host rf r = rf (BYTE8_XOR_BE host (RB_formula r))"

definition set_RB :: "endianness_t \<Rightarrow> regfile \<Rightarrow> byte_reg \<Rightarrow> u8 \<Rightarrow> regfile" where
  "set_RB host rf r v = rf(BYTE8_XOR_BE host (RB_formula r) := v)"

definition RL :: "endianness_t \<Rightarrow> regfile \<Rightarrow> nibble \<Rightarrow> u32" where
  "RL host rf n = L_get host rf (BYTE_XOR_BE host (drop_bit 1 (unat n)))"

definition set_RL :: "endianness_t \<Rightarrow> regfile \<Rightarrow> nibble \<Rightarrow> u32 \<Rightarrow> regfile" where
  "set_RL host rf n v = L_set host rf (BYTE_XOR_BE host (drop_bit 1 (unat n))) v"

text \<open>
  Modelled from the spec: the quad accessor (include/z8000cpu.h is missing, and emu.h
  has no index macro for quads). Spec 3.1: "Quad view RQ(n), n in {0,4,8,12}: four
  consecutive words, RW(n) high", that is the long RL(n) above the long RL(n+2). As
  \<open>RL\<close> drops the lowest bit of its register field, \<open>RQ\<close> drops the lowest two.
\<close>

definition RQ :: "endianness_t \<Rightarrow> regfile \<Rightarrow> nibble \<Rightarrow> u64" where
  "RQ host rf n =
     word_cat (L_get host rf (BYTE_XOR_BE host (2 * drop_bit 2 (unat n))))
              (L_get host rf (BYTE_XOR_BE host (2 * drop_bit 2 (unat n) + 1)))"

definition set_RQ :: "endianness_t \<Rightarrow> regfile \<Rightarrow> nibble \<Rightarrow> u64 \<Rightarrow> regfile" where
  "set_RQ host rf n v =
     L_set host
       (L_set host rf (BYTE_XOR_BE host (2 * drop_bit 2 (unat n))) (ucast (drop_bit 32 v)))
       (BYTE_XOR_BE host (2 * drop_bit 2 (unat n) + 1)) (ucast v)"

subsection \<open>Bytes of the register file in the order of the Z8000\<close>

text \<open>
  Byte \<open>p\<close> of the register file in the big-endian order of the Z8000: byte \<open>2k\<close> is the
  high byte and byte \<open>2k + 1\<close> the low byte of word register \<open>k\<close>. On a little-endian
  host it is stored at \<open>p XOR 3\<close>.
\<close>

definition reg_byte :: "endianness_t \<Rightarrow> regfile \<Rightarrow> nat \<Rightarrow> u8" where
  "reg_byte host rf p = rf (BYTE8_XOR_BE host p)"

text \<open>A write through one of the four views, and a sequence of writes in program order.\<close>

datatype reg_write =
  Write_RB byte_reg u8 | Write_RW nibble u16 | Write_RL nibble u32 | Write_RQ nibble u64

fun do_write :: "endianness_t \<Rightarrow> regfile \<Rightarrow> reg_write \<Rightarrow> regfile" where
  "do_write host rf (Write_RB r v) = set_RB host rf r v"
| "do_write host rf (Write_RW n v) = set_RW host rf n v"
| "do_write host rf (Write_RL n v) = set_RL host rf n v"
| "do_write host rf (Write_RQ n v) = set_RQ host rf n v"

fun do_writes :: "endianness_t \<Rightarrow> regfile \<Rightarrow> reg_write list \<Rightarrow> regfile" where
  "do_writes host rf [] = rf"
| "do_writes host rf (w # ws) = do_writes host (do_write host rf w) ws"

text \<open>
  The slice of a written value that belongs at byte \<open>p\<close> of the register file: \<open>None\<close>
  when the written register does not overlap byte \<open>p\<close>. A word register \<open>n\<close> covers
  bytes \<open>2n\<close> and \<open>2n + 1\<close>, a long register the four bytes from \<open>4 (n div 2)\<close>, a
  quad register the eight bytes from \<open>8 (n div 4)\<close>, most significant byte first.
\<close>

fun written_byte :: "reg_write \<Rightarrow> nat \<Rightarrow> u8 option" where
  "written_byte (Write_RB r v) p = (if p = RB_formula r then Some v else None)"
| "written_byte (Write_RW n v) p =
     (if p = 2 * unat n then Some (byte16 1 v)
      else if p = 2 * unat n + 1 then Some (byte16 0 v) else None)"
| "written_byte (Write_RL n v) p =
     (if 4 * (unat n div 2) \<le> p \<and> p < 4 * (unat n div 2) + 4
      then Some (byte32 (4 * (unat n div 2) + 3 - p) v) else None)"
| "written_byte (Write_RQ n v) p =
     (if 8 * (unat n div 4) \<le> p \<and> p < 8 * (unat n div 4) + 8
      then Some (byte64 (8 * (unat n div 4) + 7 - p) v) else None)"

text \<open>The slice at byte \<open>p\<close> of the most recent write of a sequence that overlaps it.\<close>

fun last_written :: "reg_write list \<Rightarrow> nat \<Rightarrow> u8 option" where
  "last_written [] p = None"
| "last_written (w # ws) p =
     (case last_written ws p of Some b \<Rightarrow> Some b | None \<Rightarrow> written_byte w p)"

section \<open>The CPU core\<close>

text \<open>
  The CPU implementation (src/z8000.cpp with include/z8000.h, z8000cpu.h, z8000ops.hxx
  and z8000tbl.hxx) is not among the sources: of the repository there are only the shim
  emu.h, the README and the assembly program test\_instructions.s. The definitions of
  this section are modelled from the specification and from the README; each one names
  the sentences it follows.
\<close>

subsection \<open>Flags and control word\<close>

text \<open>
  README, "FCW (Flags and Control Word) Bits", and spec 3.2: bit 14 is S/N (system mode
  when set), bit 7 C, bit 6 Z, bit 5 S, bit 4 P/V, bit 3 DA, bit 2 H.
\<close>

definition F_S_N :: u16 where "F_S_N = 0x4000"
definition F_C :: u16 where "F_C = 0x0080"
definition F_Z :: u16 where "F_Z = 0x0040"
definition F_S :: u16 where "F_S = 0x0020"
definition F_PV :: u16 where "F_PV = 0x0010"
definition F_DA :: u16 where "F_DA = 0x0008"
definition F_H :: u16 where "F_H = 0x0004"

definition get_flag :: "u16 \<Rightarrow> u16 \<Rightarrow> bool" where
  "get_flag f w = (w AND f \<noteq> 0)"

definition set_flag :: "u16 \<Rightarrow> bool \<Rightarrow> u16 \<Rightarrow> u16" where
  "set_flag f b w = (if b then w OR f else w AND NOT f)"

subsection \<open>Bus interface\<close>

text \<open>
  Modelled from the spec: the bus (include/memory.h is missing). Spec 4.2:
  "read\_word(addr) / write\_word(addr, val): 16-bit, big-endian in memory: high byte at
  even address"; "Memory reads/writes with odd addresses for 16/32-bit accesses are not
  rejected". The memory is a flat array of bytes over the 16-bit address space; the
  second byte of a word is at \<open>addr + 1\<close> modulo \<open>2^16\<close>.
\<close>

type_synonym memory = "u16 \<Rightarrow> u8"

definition read_byte :: "memory \<Rightarrow> u16 \<Rightarrow> u8" where
  "read_byte m addr = m addr"

definition write_byte :: "memory \<Rightarrow> u16 \<Rightarrow> u8 \<Rightarrow> memory" where
  "write_byte m addr val = m(addr := val)"

definition read_word :: "memory \<Rightarrow> u16 \<Rightarrow> u16" where
  "read_word m addr = make_u16 (m addr) (m (addr + 1))"

definition write_word :: "memory \<Rightarrow> u16 \<Rightarrow> u16 \<Rightarrow> memory" where
  "write_word m addr val = m(addr := byte16 1 val, addr + 1 := byte16 0 val)"

subsection \<open>CPU state\<close>

text \<open>
  Spec 4.5: "Vector offsets from PSAP (T values) are: 0 = reset, 1 =
  extended-instruction, 2 = privileged-instruction, 3 = system-call, 4 = segment-trap,
  5 = NMI, 6 = non-vectored, 7 = vectored."
\<close>

datatype trap_source =
  TRAP_RESET | TRAP_EXTENDED | TRAP_PRIVILEGED | TRAP_SYSCALL
  | TRAP_SEGMENT | TRAP_NMI | TRAP_NVI | TRAP_VI

fun trap_number :: "trap_source \<Rightarrow> nat" where
  "trap_number TRAP_RESET = 0"
| "trap_number TRAP_EXTENDED = 1"
| "trap_number TRAP_PRIVILEGED = 2"
| "trap_number TRAP_SYSCALL = 3"
| "trap_number TRAP_SEGMENT = 4"
| "trap_number TRAP_NMI = 5"
| "trap_number TRAP_NVI = 6"
| "trap_number TRAP_VI = 7"

text \<open>
  Modelled from the spec: the CPU state (include/z8000.h is missing). Spec 3.3: PC, FCW,
  PSAP, the refresh register, \<open>irq_req\<close> ("pending line state: NMI / NVI / VI,
  latched"), \<open>nmi_pending\<close>, \<open>halt\<close>, \<open>mi\<close>, the cycle counter and the
  block-instruction re-execution flag; spec 3.1: the register file. The memory and the
  I/O ports belong to the embedder (spec 5); the state carries them so that an
  instruction is a function on states. \<open>io_in\<close> is what a read of a port returns and
  \<open>io_out\<close> the port writes issued so far, the most recent first.
\<close>

record cpu_state =
  regs :: regfile
  pc :: u16
  fcw :: u16
  psap :: u16
  refresh :: u16
  irq_req :: "trap_source set"
  nmi_pending :: bool
  halt :: bool
  mi :: bool
  cycles :: u64
  block_reexec :: bool
  mem :: memory
  io_in :: "u16 \<Rightarrow> u16"
  io_out :: "(u16 \<times> u16) list"

subsection \<open>Program status area\<close>

text \<open>
  README, "Memory Map (Z8002)" (and the same table with offsets from PSAP in spec 6.3):

  \<^verbatim>\<open>0x0000-01   Reserved
0x0002-03   FCW (Flags/Control Word) after reset
0x0004-05   PC (Program Counter) after reset
0x0006-07   FCW for Extended Instruction trap
0x0008-09   PC for Extended Instruction trap
0x000A-0B   FCW for Privileged Instruction trap
0x000C-0D   PC for Privileged Instruction trap
0x000E-0F   FCW for System Call
0x0010-11   PC for System Call
0x0012-13   FCW for Segment Trap
0x0014-15   PC for Segment Trap
0x0016-17   FCW for NMI
0x0018-19   PC for NMI
0x001A-1B   FCW for Non-Vectored Interrupt
0x001C-1D   PC for Non-Vectored Interrupt
0x001E-1F   FCW for Vectored Interrupt
0x0020-21   PC for Vectored Interrupt\<close>
\<close>

fun vector_fcw :: "trap_source \<Rightarrow> u16" where
  "vector_fcw TRAP_RESET = 0x0002"
| "vector_fcw TRAP_EXTENDED = 0x0006"
| "vector_fcw TRAP_PRIVILEGED = 0x000A"
| "vector_fcw TRAP_SYSCALL = 0x000E"
| "vector_fcw TRAP_SEGMENT = 0x0012"
| "vector_fcw TRAP_NMI = 0x0016"
| "vector_fcw TRAP_NVI = 0x001A"
| "vector_fcw TRAP_VI = 0x001E"

fun vector_pc :: "trap_source \<Rightarrow> u16" where
  "vector_pc TRAP_RESET = 0x0004"
| "vector_pc TRAP_EXTENDED = 0x0008"
| "vector_pc TRAP_PRIVILEGED = 0x000C"
| "vector_pc TRAP_SYSCALL = 0x0010"
| "vector_pc TRAP_SEGMENT = 0x0014"
| "vector_pc TRAP_NMI = 0x0018"
| "vector_pc TRAP_NVI = 0x001C"
| "vector_pc TRAP_VI = 0x0020"

subsection \<open>Trap and interrupt entry, reset, HALT\<close>

text \<open>
  Modelled from the spec: PUSH (src/z8000.cpp is missing). Spec 4.5: "PUSH
  pre-decrements SP by operand size"; spec 3.1: "R15 is the stack pointer (for Z8002)";
  spec 9: stack wrap follows "modulo-2^16 semantics".
\<close>

definition push_word :: "endianness_t \<Rightarrow> u16 \<Rightarrow> cpu_state \<Rightarrow> cpu_state" where
  "push_word h val s =
     (let sp = RW h (regs s) 15 - 2
      in s\<lparr>regs := set_RW h (regs s) 15 sp, mem := write_word (mem s) sp val\<rparr>)"

text \<open>
  Modelled from the spec: the trap-entry sequence (src/z8000.cpp is missing). Spec 4.5,
  "For the non-segmented Z8002 entry sequence upon trap T with identifier id:
  1. Push old FCW and old PC (in that order - FCW first, then PC, so the stack grows as:
  low = PC, next = FCW). 2. For vectored interrupt and system call, also push the id
  byte extended to a word. 3. Load new FCW from PSAP + 2 T. 4. Load new PC from
  PSAP + 2 T + 2. 5. Clear the pending-line latch for that source."

  The addresses of steps 3 and 4 do not agree with the memory map above, which the
  README and spec 6.3 both give: for the privileged-instruction trap (T = 2) the steps
  say PSAP + 4 and PSAP + 6, the memory map 0x0A and 0x0C. The code that would decide
  is not among the sources. The model reads the entry of the source from the memory
  map, as reset does (FCW at 2, PC at 4, on which the README, the script building the
  test binary and the specification agree); the theorems below use the entries of
  reset and of the privileged-instruction trap only.
\<close>

definition trap_entry :: "endianness_t \<Rightarrow> trap_source \<Rightarrow> u8 \<Rightarrow> cpu_state \<Rightarrow> cpu_state" where
  "trap_entry h T ident s =
     (let s1 = push_word h (fcw s) s;
          s2 = push_word h (pc s) s1;
          s3 = (if T = TRAP_VI \<or> T = TRAP_SYSCALL then push_word h (ucast ident) s2 else s2)
      in s3\<lparr>fcw := read_word (mem s3) (psap s + vector_fcw T),
             pc := read_word (mem s3) (psap s + vector_pc T),
             irq_req := irq_req s - {T}\<rparr>)"

text \<open>
  Modelled from the spec: reset (src/z8000.cpp is missing). Spec 4.5, "Reset:
  external; reloads PC/FCW from PSAP vector 0 and clears pending lines, halt flag, and
  refresh register"; spec 3.3: "after reset PSAP = 0"; spec 3.3, Lifecycle: "The CPU is
  created in a reset state (PC, FCW loaded from the reset vector at addresses 2 and
  4)".
\<close>

definition reset :: "cpu_state \<Rightarrow> cpu_state" where
  "reset s =
     s\<lparr>psap := 0,
       fcw := read_word (mem s) (0 + vector_fcw TRAP_RESET),
       pc := read_word (mem s) (0 + vector_pc TRAP_RESET),
       irq_req := {}, nmi_pending := False, halt := False, refresh := 0\<rparr>"

text \<open>
  A new CPU on a memory and a port space: a reset applied to the fields as the
  constructor leaves them. The content of the general registers is not determined; it
  is the parameter \<open>rf\<close>.
\<close>

definition cpu_create :: "regfile \<Rightarrow> memory \<Rightarrow> (u16 \<Rightarrow> u16) \<Rightarrow> cpu_state" where
  "cpu_create rf m inp =
     reset \<lparr>regs = rf, pc = 0, fcw = 0, psap = 0, refresh = 0, irq_req = {},
            nmi_pending = False, halt = False, mi = False, cycles = 0,
            block_reexec = False, mem = m, io_in = inp, io_out = []\<rparr>"

text \<open>
  Modelled from the spec: the HALT handler (include/z8000ops.hxx is missing). Spec
  4.5: "HALT (only in system mode, else privileged-instruction trap)"; spec 3.2: bit 14
  "System mode (1) vs Normal (0); HALT requires system mode"; spec 3.3: "HALT suspends
  fetching". The handler runs after the fetch, with PC behind the opcode; the
  identifier of the trap is taken from the opcode.
\<close>

definition op_HALT :: "endianness_t \<Rightarrow> u16 \<Rightarrow> cpu_state \<Rightarrow> cpu_state" where
  "op_HALT h opcode s =
     (if get_flag F_S_N (fcw s) then s\<lparr>halt := True\<rparr>
      else trap_entry h TRAP_PRIVILEGED (ucast opcode) s)"

subsection \<open>Flag unit\<close>

text \<open>
  Modelled from the spec: the flag computations (include/z8000cpu.h and
  include/z8000ops.hxx are missing). Spec 4.3: "Word add a+b+cin: result = (a+b+cin) mod
  2^16. C = unsigned overflow of 16 bits. Z = (result==0). S = bit 15 of result. V =
  signed overflow: ((~(a^b)) & (a^result)) >> 15. H = carry from bit 11 into bit 12.";
  "Word sub a-b-bin: dual; C = borrow (result would be negative in unsigned)."; "Byte
  variants: identical but 8 bits". For a subtraction the operand \<open>b\<close> is negated, so the
  overflow test is \<open>((a^b) & (a^result))\<close>, and H is the borrow out of the low 12 (byte:
  low 4) bits.
\<close>

definition add_overflow_word :: "u16 \<Rightarrow> u16 \<Rightarrow> u16 \<Rightarrow> bool" where
  "add_overflow_word a b result = (drop_bit 15 ((NOT (a XOR b)) AND (a XOR result)) \<noteq> 0)"

definition sub_overflow_word :: "u16 \<Rightarrow> u16 \<Rightarrow> u16 \<Rightarrow> bool" where
  "sub_overflow_word a b result = (drop_bit 15 ((a XOR b) AND (a XOR result)) \<noteq> 0)"

definition add_half_carry_word :: "u16 \<Rightarrow> u16 \<Rightarrow> bool" where
  "add_half_carry_word a b = bit ((a AND 0x0FFF) + (b AND 0x0FFF)) 12"

definition sub_half_borrow_word :: "u16 \<Rightarrow> u16 \<Rightarrow> bool" where
  "sub_half_borrow_word a b = ((a AND 0x0FFF) < (b AND 0x0FFF))"

definition add_overflow_byte :: "u8 \<Rightarrow> u8 \<Rightarrow> u8 \<Rightarrow> bool" where
  "add_overflow_byte a b result = (drop_bit 7 ((NOT (a XOR b)) AND (a XOR result)) \<noteq> 0)"

definition sub_overflow_byte :: "u8 \<Rightarrow> u8 \<Rightarrow> u8 \<Rightarrow> bool" where
  "sub_overflow_byte a b result = (drop_bit 7 ((a XOR b) AND (a XOR result)) \<noteq> 0)"

definition add_half_carry_byte :: "u8 \<Rightarrow> u8 \<Rightarrow> bool" where
  "add_half_carry_byte a b = bit ((a AND 0x0F) + (b AND 0x0F)) 4"

definition sub_half_borrow_byte :: "u8 \<Rightarrow> u8 \<Rightarrow> bool" where
  "sub_half_borrow_byte a b = ((a AND 0x0F) < (b AND 0x0F))"

text \<open>
  Modelled from the spec: INC and DEC. Spec 4.3: "INC/DEC: does not affect C; updates Z,
  S, V (V set on wrap across signed boundary), H."; spec 4.5: "INC/DEC by n in [1..16]
  with n encoded as n-1". \<open>i4\<close> is the 4-bit field of the instruction; the functions
  return the result and the new FCW.
\<close>

definition INCW :: "u16 \<Rightarrow> u16 \<Rightarrow> nibble \<Rightarrow> u16 \<times> u16" where
  "INCW flags dest i4 =
     (let val = ucast i4 + 1; result = dest + val
      in (result,
          set_flag F_H (add_half_carry_word dest val)
            (set_flag F_PV (add_overflow_word dest val result)
              (set_flag F_S (bit result 15) (set_flag F_Z (result = 0) flags)))))"

definition DECW :: "u16 \<Rightarrow> u16 \<Rightarrow> nibble \<Rightarrow> u16 \<times> u16" where
  "DECW flags dest i4 =
     (let val = ucast i4 + 1; result = dest - val
      in (result,
          set_flag F_H (sub_half_borrow_word dest val)
            (set_flag F_PV (sub_overflow_word dest val result)
              (set_flag F_S (bit result 15) (set_flag F_Z (result = 0) flags)))))"

definition INCB :: "u16 \<Rightarrow> u8 \<Rightarrow> nibble \<Rightarrow> u8 \<times> u16" where
  "INCB flags dest i4 =
     (let val = ucast i4 + 1; result = dest + val
      in (result,
          set_flag F_H (add_half_carry_byte dest val)
            (set_flag F_PV (add_overflow_byte dest val result)
              (set_flag F_S (bit result 7) (set_flag F_Z (result = 0) flags)))))"

definition DECB :: "u16 \<Rightarrow> u8 \<Rightarrow> nibble \<Rightarrow> u8 \<times> u16" where
  "DECB flags dest i4 =
     (let val = ucast i4 + 1; result = dest - val
      in (result,
          set_flag F_H (sub_half_borrow_byte dest val)
            (set_flag F_PV (sub_overflow_byte dest val result)
              (set_flag F_S (bit result 7) (set_flag F_Z (result = 0) flags)))))"

text \<open>
  Modelled from the spec: CP. Spec 4.5: "CP (compare, flags only)": the flags of the
  subtraction \<open>a - b\<close> without borrow-in; the result is not stored.
\<close>

definition CPW :: "u16 \<Rightarrow> u16 \<Rightarrow> u16 \<Rightarrow> u16" where
  "CPW flags a b =
     (let result = a - b
      in set_flag F_H (sub_half_borrow_word a b)
           (set_flag F_PV (sub_overflow_word a b result)
             (set_flag F_S (bit result 15)
               (set_flag F_Z (result = 0) (set_flag F_C (a < b) flags)))))"

definition CPB :: "u16 \<Rightarrow> u8 \<Rightarrow> u8 \<Rightarrow> u16" where
  "CPB flags a b =
     (let result = a - b
      in set_flag F_H (sub_half_borrow_byte a b)
           (set_flag F_PV (sub_overflow_byte a b result)
             (set_flag F_S (bit result 7)
               (set_flag F_Z (result = 0) (set_flag F_C (a < b) flags)))))"

text \<open>
  Modelled from the spec: condition codes. Spec 4.5: "Condition codes are 4-bit values
  covering always/never, Z/NZ, C/NC, sign, overflow, sign+overflow combinations, and
  unsigned LE/GT/LT/GE." The specification does not number them; the model names the
  sixteen conditions. The assembler's \<open>eq\<close> is \<open>CC_Z\<close>, unsigned LT is \<open>CC_C\<close> and
  unsigned GE is \<open>CC_NC\<close>.
\<close>

datatype cond_code =
  CC_F | CC_T | CC_Z | CC_NZ | CC_C | CC_NC | CC_MI | CC_PL | CC_OV | CC_NOV
  | CC_LT | CC_GE | CC_LE | CC_GT | CC_ULE | CC_UGT

fun cond_holds :: "cond_code \<Rightarrow> u16 \<Rightarrow> bool" where
  "cond_holds CC_F w = False"
| "cond_holds CC_T w = True"
| "cond_holds CC_Z w = get_flag F_Z w"
| "cond_holds CC_NZ w = (\<not> get_flag F_Z w)"
| "cond_holds CC_C w = get_flag F_C w"
| "cond_holds CC_NC w = (\<not> get_flag F_C w)"
| "cond_holds CC_MI w = get_flag F_S w"
| "cond_holds CC_PL w = (\<not> get_flag F_S w)"
| "cond_holds CC_OV w = get_flag F_PV w"
| "cond_holds CC_NOV w = (\<not> get_flag F_PV w)"
| "cond_holds CC_LT w = (get_flag F_S w \<noteq> get_flag F_PV w)"
| "cond_holds CC_GE w = (get_flag F_S w = get_flag F_PV w)"
| "cond_holds CC_LE w = (get_flag F_Z w \<or> get_flag F_S w \<noteq> get_flag F_PV w)"
| "cond_holds CC_GT w = (\<not> (get_flag F_Z w \<or> get_flag F_S w \<noteq> get_flag F_PV w))"
| "cond_holds CC_ULE w = (get_flag F_C w \<or> get_flag F_Z w)"
| "cond_holds CC_UGT w = (\<not> (get_flag F_C w \<or> get_flag F_Z w))"

subsection \<open>Block instructions\<close>

text \<open>
  Modelled from the spec: the decoded block instructions (include/z8000tbl.hxx is
  missing). Spec 4.5: "LDI, LDIR, LDD, LDDR; byte forms LDIB, LDIRB, LDDB, LDDRB; CPI,
  CPIR, CPD, CPDR and byte forms; INI, INIR, IND, INDR and byte forms; OUTI, OTIR, OUTD,
  OTDR and byte forms. Each is encoded in two words; the second word specifies
  destination register, source register, count register, and (for CPxR) a 4-bit
  condition code." An instruction is given by its family, operand size, direction and
  form (the flag is true for the repeating form) and by its registers:
  \<open>BLK_LD size dir rep dst src cnt\<close> copies from \<open>@src\<close> to \<open>@dst\<close>;
  \<open>BLK_CPW dir rep rd src cnt cc\<close> compares the word register \<open>rd\<close> with \<open>@src\<close>,
  \<open>BLK_CPB\<close> a byte register; \<open>BLK_IN size dir rep dst port cnt\<close> reads the port whose
  address is in register \<open>port\<close> into \<open>@dst\<close>; \<open>BLK_OUT size dir rep port src cnt\<close>
  writes \<open>@src\<close> to the port.
\<close>

datatype operand_size = BYTE | WORD

datatype direction = INCREMENT | DECREMENT

datatype block_insn =
    BLK_LD operand_size direction bool nibble nibble nibble
  | BLK_CPW direction bool nibble nibble nibble cond_code
  | BLK_CPB direction bool byte_reg nibble nibble cond_code
  | BLK_IN operand_size direction bool nibble nibble nibble
  | BLK_OUT operand_size direction bool nibble nibble nibble

fun blk_repeat :: "block_insn \<Rightarrow> bool" where
  "blk_repeat (BLK_LD sz dir rep dst src cnt) = rep"
| "blk_repeat (BLK_CPW dir rep rd src cnt cc) = rep"
| "blk_repeat (BLK_CPB dir rep rd src cnt cc) = rep"
| "blk_repeat (BLK_IN sz dir rep dst port cnt) = rep"
| "blk_repeat (BLK_OUT sz dir rep port src cnt) = rep"

fun blk_cnt :: "block_insn \<Rightarrow> nibble" where
  "blk_cnt (BLK_LD sz dir rep dst src cnt) = cnt"
| "blk_cnt (BLK_CPW dir rep rd src cnt cc) = cnt"
| "blk_cnt (BLK_CPB dir rep rd src cnt cc) = cnt"
| "blk_cnt (BLK_IN sz dir rep dst port cnt) = cnt"
| "blk_cnt (BLK_OUT sz dir rep port src cnt) = cnt"


text \<open>Spec 4.5: "update pointer registers by +2/-2 (word) or +-1 (byte)".\<close>

fun blk_delta :: "operand_size \<Rightarrow> direction \<Rightarrow> u16" where
  "blk_delta WORD INCREMENT = 2"
| "blk_delta WORD DECREMENT = - 2"
| "blk_delta BYTE INCREMENT = 1"
| "blk_delta BYTE DECREMENT = - 1"

definition advance :: "endianness_t \<Rightarrow> nibble \<Rightarrow> u16 \<Rightarrow> cpu_state \<Rightarrow> cpu_state" where
  "advance h r d s = s\<lparr>regs := set_RW h (regs s) r (RW h (regs s) r + d)\<rparr>"

text \<open>
  Modelled from the spec: the transfer or comparison of one iteration
  (include/z8000ops.hxx is missing). Spec 4.5, step 1: "perform one transfer/compare
  step: read source, optionally write destination, optionally compare against a
  register, update pointer registers". The function returns whether the condition of a
  compare instruction holds for the pair just compared (false for the other families)
  and the state. A byte read from a port is the low byte of the port's value. Whether
  the instruction may execute at all is decided before, by \<open>blk_trap\<close> in the handler
  \<open>block_step\<close> below.
\<close>

fun block_transfer :: "endianness_t \<Rightarrow> block_insn \<Rightarrow> cpu_state \<Rightarrow> bool \<times> cpu_state" where
  "block_transfer h (BLK_LD sz dir rep dst src cnt) s =
     (let a_src = RW h (regs s) src; a_dst = RW h (regs s) dst;
          m' = (case sz of
                  WORD \<Rightarrow> write_word (mem s) a_dst (read_word (mem s) a_src)
                | BYTE \<Rightarrow> write_byte (mem s) a_dst (read_byte (mem s) a_src))
      in (False, advance h dst (blk_delta sz dir) (advance h src (blk_delta sz dir) (s\<lparr>mem := m'\<rparr>))))"
| "block_transfer h (BLK_CPW dir rep rd src cnt cc) s =
     (let f = CPW (fcw s) (RW h (regs s) rd) (read_word (mem s) (RW h (regs s) src))
      in (cond_holds cc f, advance h src (blk_delta WORD dir) (s\<lparr>fcw := f\<rparr>)))"
| "block_transfer h (BLK_CPB dir rep rd src cnt cc) s =
     (let f = CPB (fcw s) (RB h (regs s) rd) (read_byte (mem s) (RW h (regs s) src))
      in (cond_holds cc f, advance h src (blk_delta BYTE dir) (s\<lparr>fcw := f\<rparr>)))"
| "block_transfer h (BLK_IN sz dir rep dst port cnt) s =
     (let v = io_in s (RW h (regs s) port); a_dst = RW h (regs s) dst;
          m' = (case sz of
                  WORD \<Rightarrow> write_word (mem s) a_dst v
                | BYTE \<Rightarrow> write_byte (mem s) a_dst (ucast v))
      in (False, advance h dst (blk_delta sz dir) (s\<lparr>mem := m'\<rparr>)))"
| "block_transfer h (BLK_OUT sz dir rep port src cnt) s =
     (let a_src = RW h (regs s) src;
          v = (case sz of
                 WORD \<Rightarrow> read_word (mem s) a_src
               | BYTE \<Rightarrow> ucast (read_byte (mem s) a_src))
      in (False, advance h src (blk_delta sz dir)
                   (s\<lparr>io_out := (RW h (regs s) port, v) # io_out s\<rparr>)))"

text \<open>
  Spec 4.5, steps 1 and 2: "decrement the count register by 1"; "Set flags: V = 1 iff
  count register became 0."
\<close>

definition count_down :: "endianness_t \<Rightarrow> nibble \<Rightarrow> cpu_state \<Rightarrow> cpu_state" where
  "count_down h cnt s =
     (let c = RW h (regs s) cnt - 1
      in s\<lparr>regs := set_RW h (regs s) cnt c, fcw := set_flag F_PV (c = 0) (fcw s)\<rparr>)"

text \<open>
  Modelled from the spec: the traps of a block instruction (include/z8000ops.hxx and
  include/z8000tbl.hxx are missing). Spec 7: "Privileged-instruction trap: HALT / DI /
  EI / LDCTL / LDPS / IN / OUT / SIN / SOUT / RESET executed in normal mode", and the
  block I/O forms are the iterated IN and OUT; spec 4.4: "Register index 0 in
  IR/X/BA/BX contexts is illegal; such encodings trigger an Extended-Instruction trap";
  spec 7: "Extended-instruction trap: [...] illegal register-0 use in indirect
  addressing mode". The operands that the assembler writes \<open>@R\<close> are in IR mode: source
  and destination of the transfers, the source of the comparisons, the memory operand
  and the port register of the I/O forms (\<open>inir @r4, @r5, r6\<close> and
  \<open>otir @r5, @r4, r6\<close> in the test program). The compared register and the count
  register are in R mode and may be register 0. The illegal encoding belongs to the
  decoder and is tested first.
\<close>

fun blk_privileged :: "block_insn \<Rightarrow> bool" where
  "blk_privileged (BLK_LD sz dir rep dst src cnt) = False"
| "blk_privileged (BLK_CPW dir rep rd src cnt cc) = False"
| "blk_privileged (BLK_CPB dir rep rd src cnt cc) = False"
| "blk_privileged (BLK_IN sz dir rep dst port cnt) = True"
| "blk_privileged (BLK_OUT sz dir rep port src cnt) = True"

fun blk_indirect :: "block_insn \<Rightarrow> nibble list" where
  "blk_indirect (BLK_LD sz dir rep dst src cnt) = [dst, src]"
| "blk_indirect (BLK_CPW dir rep rd src cnt cc) = [src]"
| "blk_indirect (BLK_CPB dir rep rd src cnt cc) = [src]"
| "blk_indirect (BLK_IN sz dir rep dst port cnt) = [dst, port]"
| "blk_indirect (BLK_OUT sz dir rep port src cnt) = [port, src]"

definition blk_trap :: "block_insn \<Rightarrow> cpu_state \<Rightarrow> trap_source option" where
  "blk_trap i s =
     (if 0 \<in> set (blk_indirect i) then Some TRAP_EXTENDED
      else if blk_privileged i \<and> \<not> get_flag F_S_N (fcw s) then Some TRAP_PRIVILEGED
      else None)"

text \<open>
  Modelled from the spec: the handler of a block instruction. Spec 4.5, steps 3 and 4:
  "Terminate the instruction if: it is the non-repeating form (LDI, CPI, ...), or the
  repeating form and count==0, or (for CPxR) the user condition matches the
  just-compared pair. Otherwise, the instruction is not terminated: rewind PC"; spec
  3.3: "Block-instruction re-execution flag: if set after a handler returns, PC is
  rewound to the instruction's own address". The handler returns whether the condition
  matched, whether the instruction is over, and the state.

  An instruction that traps transfers nothing and leaves the registers other than the
  stack pointer as they are: the state is that of the trap entry (spec 7: "all internal
  faults redirect PC through the PSAP vector table"), nothing matched, and the
  instruction is over, as PC is not rewound to it. The entry pushes no identifier for
  these two traps.
\<close>

definition block_step :: "endianness_t \<Rightarrow> block_insn \<Rightarrow> cpu_state \<Rightarrow> bool \<times> bool \<times> cpu_state" where
  "block_step h i s =
     (case blk_trap i s of
        Some T \<Rightarrow> (False, True, (trap_entry h T 0 s)\<lparr>block_reexec := False\<rparr>)
      | None \<Rightarrow>
          (let (matched, s1) = block_transfer h i s;
               s2 = count_down h (blk_cnt i) s1;
               terminated = (\<not> blk_repeat i \<or> RW h (regs s2) (blk_cnt i) = 0 \<or> matched)
           in (matched, terminated, s2\<lparr>block_reexec := \<not> terminated\<rparr>)))"

text \<open>
  Modelled from the spec: one pass of the interpreter loop over a block instruction at
  PC (src/z8000.cpp is missing). Spec 4.4: "Block instructions occupy two 16-bit
  words", so the handler runs with PC four bytes behind the instruction's address;
  afterwards the loop rewinds PC when the re-execution flag is set. Interrupts, the
  refresh register and the cycle counter are left out.
\<close>

definition execute_block :: "endianness_t \<Rightarrow> block_insn \<Rightarrow> cpu_state \<Rightarrow> bool \<times> bool \<times> cpu_state" where
  "execute_block h i s =
     (let (matched, terminated, s1) = block_step h i (s\<lparr>pc := pc s + 4\<rparr>)
      in (matched, terminated,
          if block_reexec s1 then s1\<lparr>pc := pc s, block_reexec := False\<rparr> else s1))"

text \<open>
  The loop re-executing the instruction until it is over, with a bound on the number
  of passes: the list of the passes, each with its match flag and the state it left, or
  \<open>None\<close> when the bound is used up before the instruction is over. An instruction that
  traps is over after one pass.
\<close>

fun run_block ::
  "nat \<Rightarrow> endianness_t \<Rightarrow> block_insn \<Rightarrow> cpu_state \<Rightarrow> (bool \<times> cpu_state) list option" where
  "run_block 0 h i s = None"
| "run_block (Suc k) h i s =
     (case execute_block h i s of
        (matched, terminated, s') \<Rightarrow>
          if terminated then Some [(matched, s')]
          else map_option ((#) (matched, s')) (run_block k h i s'))"


subsection \<open>States of the test scenarios\<close>

text \<open>
  The script that builds the regression test binary (it follows the README in the
  sources: "Reset vector: FCW=0x4000 (system mode), PC=0x0100") and spec 8, "reset vector
  at 0x0000-0x0005 = 00 00 40 00 01 00": the reset FCW 0x4000 at address 2 and the reset
  PC 0x0100 at address 4.
\<close>

definition reset_vector :: "memory \<Rightarrow> memory" where
  "reset_vector m = write_word (write_word m 0x0002 0x4000) 0x0004 0x0100"



text \<open>
  Spec 8, scenario 6, and \<open>test_cpir_match\<close> of the test program: "memory at 0x1000
  holds 0x1111,0x2222,0x3333,0x4444,0x5555; R3=0x3333, R4=0x1000, R5=5".
\<close>

definition cpir_memory :: memory where
  "cpir_memory =
     reset_vector
       (write_word (write_word (write_word (write_word (write_word (\<lambda>_. 0)
          0x1000 0x1111) 0x1002 0x2222) 0x1004 0x3333) 0x1006 0x4444) 0x1008 0x5555)"

definition cpir_state :: cpu_state where
  "cpir_state =
     cpu_create
       (set_RW ENDIANNESS_LITTLE
          (set_RW ENDIANNESS_LITTLE (set_RW ENDIANNESS_LITTLE (\<lambda>_. 0) 3 0x3333) 4 0x1000) 5 5)
       cpir_memory (\<lambda>_. 0)"

text \<open>
  A CPU in normal mode just after the fetch of a HALT opcode at 0x0100: the reset FCW is
  0x0000, the stack pointer is 0x1E00 (spec 8: "initial SP = 0x1E00"), and the entry of
  the privileged-instruction trap in the program status area holds FCW 0x4000 and PC
  0x0080.
\<close>

definition normal_mode_memory :: memory where
  "normal_mode_memory =
     write_word (write_word (write_word (\<lambda>_. 0) 0x0004 0x0100) 0x000A 0x4000) 0x000C 0x0080"

definition normal_mode_state :: cpu_state where
  "normal_mode_state =
     (cpu_create (set_RW ENDIANNESS_LITTLE (\<lambda>_. 0) 15 0x1E00) normal_mode_memory (\<lambda>_. 0))
       \<lparr>pc := 0x0102\<rparr>"

text \<open>
  The same CPU before the fetch of \<open>inir @r4, @r5, r6\<close> at 0x0100, with registers as
  \<open>test_inir\<close> of the test program sets them: a destination in R4 (here 0x1200), port 0
  in R5 and the count 3 in R6.
\<close>

definition normal_mode_inir_state :: cpu_state where
  "normal_mode_inir_state =
     cpu_create
       (set_RW ENDIANNESS_LITTLE
          (set_RW ENDIANNESS_LITTLE (set_RW ENDIANNESS_LITTLE (\<lambda>_. 0) 15 0x1E00) 4 0x1200) 6 3)
       normal_mode_memory (\<lambda>_. 0)"

section \<open>Properties of the shim\<close>

subsection \<open>Byte swaps\<close>

lemma bit_swapendian_int16:
  "bit (swapendian_int16 v) n = (if n < 8 then bit v (n + 8) else n < 16 \<and> bit v (n - 8))"
  unfolding swapendian_int16_def
  by (auto simp add: bit_simps add.commute dest: bit_imp_le_length)

lemma bit_0xff: "bit (0xff :: u32) k = (k < 8)"
proof -
  have e: "(0xff :: u32) = mask 8" by (simp add: mask_eq_exp_minus_1)
  show ?thesis unfolding e by (auto simp add: bit_mask_iff)
qed

lemma bit_0xff00: "bit (0xff00 :: u32) k = (8 \<le> k \<and> k < 16)"
  using bit_push_bit_iff [where ?'a = u32, of 8 "0xff" k] bit_0xff [of "k - 8"]
  by (auto simp add: push_bit_eq_mult)

lemma bit_0xff0000: "bit (0xff0000 :: u32) k = (16 \<le> k \<and> k < 24)"
  using bit_push_bit_iff [where ?'a = u32, of 16 "0xff" k] bit_0xff [of "k - 16"]
  by (auto simp add: push_bit_eq_mult)

lemma bit_0xff000000: "bit (0xff000000 :: u32) k = (24 \<le> k \<and> k < 32)"
  using bit_push_bit_iff [where ?'a = u32, of 24 "0xff" k] bit_0xff [of "k - 24"]
  by (auto simp add: push_bit_eq_mult)

lemma bit_swapendian_int32:
  "bit (swapendian_int32 v) n =
     (if n < 8 then bit v (n + 24) else if n < 16 then bit v (n + 8)
      else if n < 24 then bit v (n - 8) else n < 32 \<and> bit v (n - 24))"
  unfolding swapendian_int32_def
  by (auto simp add: bit_or_iff bit_and_iff bit_drop_bit_eq bit_push_bit_iff
        bit_0xff bit_0xff00 bit_0xff0000 bit_0xff000000 add.commute
      simp del: bit_numeral_word_iff dest: bit_imp_le_length)

lemma swapendian_int16_involution: "swapendian_int16 (swapendian_int16 v) = v"
  by (rule bit_word_eqI) (auto simp add: bit_swapendian_int16 dest: bit_imp_le_length)

lemma swapendian_int32_involution: "swapendian_int32 (swapendian_int32 v) = v"
  by (rule bit_word_eqI) (auto simp add: bit_swapendian_int32 dest: bit_imp_le_length)

lemma byte16_swapendian:
  "byte16 0 (swapendian_int16 v) = byte16 1 v" "byte16 1 (swapendian_int16 v) = byte16 0 v"
  unfolding byte16_def
  by (rule bit_word_eqI; simp add: bit_simps bit_swapendian_int16 add.commute)+

lemma byte32_swapendian:
  "byte32 0 (swapendian_int32 w) = byte32 3 w" "byte32 1 (swapendian_int32 w) = byte32 2 w"
  "byte32 2 (swapendian_int32 w) = byte32 1 w" "byte32 3 (swapendian_int32 w) = byte32 0 w"
  unfolding byte32_def
  by (rule bit_word_eqI; simp add: bit_simps bit_swapendian_int32 add.commute)+

text \<open>
  C8. \<open>swapendian_int16\<close> exchanges the two bytes of its argument and
  \<open>swapendian_int32\<close> reverses the four bytes of its argument; applying either function
  twice gives the argument back.
\<close>

theorem swapendian_bytes_involution:
  "byte16 0 (swapendian_int16 v) = byte16 1 v \<and>
   byte16 1 (swapendian_int16 v) = byte16 0 v \<and>
   byte32 0 (swapendian_int32 w) = byte32 3 w \<and>
   byte32 1 (swapendian_int32 w) = byte32 2 w \<and>
   byte32 2 (swapendian_int32 w) = byte32 1 w \<and>
   byte32 3 (swapendian_int32 w) = byte32 0 w \<and>
   swapendian_int16 (swapendian_int16 v) = v \<and>
   swapendian_int32 (swapendian_int32 w) = w"
  by (simp only: byte16_swapendian byte32_swapendian
        swapendian_int16_involution swapendian_int32_involution)

subsection \<open>string\_format\<close>

lemma NUL_in_snprintf: "0 < n \<Longrightarrow> NUL \<in> set (snprintf buf n out)"
  by (simp add: snprintf_def)

lemma takeWhile_snprintf:
  "0 < n \<Longrightarrow>
   takeWhile (\<lambda>c. c \<noteq> NUL) (snprintf buf n out) =
   takeWhile (\<lambda>c. c \<noteq> NUL) (take (n - 1) out)"
proof -
  assume "0 < n"
  then have "snprintf buf n out = take (n - 1) out @ NUL # drop (min (length out) (n - 1) + 1) buf"
    by (simp add: snprintf_def)
  then show ?thesis
    by (simp add: takeWhile_append takeWhile_eq_all_conv [THEN iffD2])
qed

lemma prefix_takeWhile_take: "prefix (takeWhile P (take n xs)) xs"
  by (metis prefix_order.trans takeWhile_is_prefix take_is_prefix)

text \<open>
  C9. Whatever the format and the arguments produce, \<open>string_format\<close> returns a string:
  the characters before the first NUL among the first 255 characters of the formatted
  output. It is at most 255 characters long and a prefix of the formatted output: longer
  output is truncated, never extended.
\<close>

theorem string_format_at_most_255:
  "string_format buf0 out = Some (takeWhile (\<lambda>c. c \<noteq> NUL) (take 255 out)) \<and>
   length (takeWhile (\<lambda>c. c \<noteq> NUL) (take 255 out)) \<le> 255 \<and>
   prefix (takeWhile (\<lambda>c. c \<noteq> NUL) (take 255 out)) out"
proof -
  have "string_format buf0 out = Some (takeWhile (\<lambda>c. c \<noteq> NUL) (take 255 out))"
    using NUL_in_snprintf [of 256 buf0 out] takeWhile_snprintf [of 256 buf0 out]
    by (simp add: string_format_def std_string_def)
  moreover have "length (takeWhile (\<lambda>c. c \<noteq> NUL) (take 255 out)) \<le> 255"
    using length_takeWhile_le [of "\<lambda>c. c \<noteq> NUL" "take 255 out"] by simp
  ultimately show ?thesis
    using prefix_takeWhile_take by blast
qed

subsection \<open>Stub device callbacks\<close>

lemma fold_resolve_all_safe: "fold resolve_all_safe ds a = a"
  by (induction ds) (simp_all add: resolve_all_safe_def)

text \<open>
  C10. On a freshly constructed \<open>devcb_read<T>::array\<close>, after any number of calls of
  \<open>resolve_all_safe\<close> with any default values, \<open>operator[]\<close> and \<open>operator()\<close> return 0
  for every index and every argument.
\<close>

theorem devcb_read_array_always_zero:
  "array_subscript (fold resolve_all_safe ds devcb_read_array_new) index = 0 \<and>
   array_call (fold resolve_all_safe ds devcb_read_array_new) param = 0"
  by (simp add: fold_resolve_all_safe array_subscript_def array_call_def
        devcb_read_array_new_def)

section \<open>Properties of the register file\<close>

subsection \<open>The index macros as arithmetic\<close>

lemma xor_3_small: "(r::nat) < 4 \<Longrightarrow> r XOR 3 = 3 - r"
proof -
  assume "r < 4"
  then consider "r = 0" | "r = 1" | "r = 2" | "r = 3" by linarith
  then show ?thesis by cases simp_all
qed

lemma xor_3_nat: "(p::nat) XOR 3 = 4 * (p div 4) + (3 - p mod 4)"
proof -
  have "take_bit 2 (p XOR 3) = take_bit 2 p XOR take_bit 2 (3::nat)"
    by (rule take_bit_xor)
  moreover have "take_bit 2 (3::nat) = 3" "take_bit 2 p = p mod 4"
    by (simp_all add: take_bit_eq_mod)
  ultimately have t: "take_bit 2 (p XOR 3) = 3 - p mod 4"
    using xor_3_small [of "p mod 4"] by simp
  have "drop_bit 2 (p XOR 3) = drop_bit 2 p XOR drop_bit 2 (3::nat)"
    by (rule drop_bit_xor)
  moreover have "drop_bit 2 (3::nat) = 0" "drop_bit 2 p = p div 4"
    by (simp_all add: drop_bit_eq_div)
  ultimately have d: "drop_bit 2 (p XOR 3) = p div 4"
    by simp
  show ?thesis
    using bits_ident [of 2 "p XOR 3"] unfolding t d by (simp add: push_bit_eq_mult)
qed

lemma xor_1_nat: "(p::nat) XOR 1 = 2 * (p div 2) + (1 - p mod 2)"
proof (cases "even p")
  case True
  then have "p XOR 1 = p + 1" unfolding xor_one_eq [of p] by simp
  moreover from True have "p mod 2 = 0" "2 * (p div 2) = p" by auto
  ultimately show ?thesis by simp
next
  case False
  then have "p XOR 1 = p - 1" unfolding xor_one_eq [of p] by simp
  moreover from False have "p mod 2 = 1" "2 * (p div 2) = p - 1"
    by (auto simp add: odd_iff_mod_2_eq_one elim: oddE)
  ultimately show ?thesis by simp
qed

lemma div_mod_4_double:
  "(2 * u) div 4 = (u::nat) div 2" "(2 * u) mod 4 = 2 * (u mod 2)"
  "(2 * u + 1) div 4 = u div 2" "(2 * u + 1) mod 4 = 2 * (u mod 2) + 1"
  by presburger+

lemma xor_3_even: "(2 * u) XOR (3::nat) = 2 * (u XOR 1) + 1"
proof -
  have "r < 2 \<Longrightarrow> 4 * q + (3 - 2 * r) = 2 * (2 * q + (1 - r)) + 1" for q r :: nat
    by arith
  from this [of "u mod 2" "u div 2"] show ?thesis
    unfolding xor_3_nat xor_1_nat div_mod_4_double by simp
qed

lemma xor_3_odd: "(2 * u + 1) XOR (3::nat) = 2 * (u XOR 1)"
proof -
  have "r < 2 \<Longrightarrow> 4 * q + (3 - (2 * r + 1)) = 2 * (2 * q + (1 - r))" for q r :: nat
    by arith
  from this [of "u mod 2" "u div 2"] show ?thesis
    unfolding xor_3_nat xor_1_nat div_mod_4_double by simp
qed

lemma xor_3_long: "i < 4 \<Longrightarrow> (4 * k + i) XOR (3::nat) = 4 * k + (3 - i)"
  unfolding xor_3_nat by simp

lemma xor_3_eq_iff: "((p::nat) XOR 3 = q) = (p = q XOR 3)"
proof
  assume "p XOR 3 = q"
  then have "(p XOR 3) XOR 3 = q XOR 3" by simp
  then show "p = q XOR 3" by (simp add: xor.assoc)
next
  assume "p = q XOR 3"
  then show "p XOR 3 = q" by (simp add: xor.assoc)
qed

lemma xor_1_invol: "((u::nat) XOR 1) XOR 1 = u"
  by (simp add: xor.assoc)

lemma BYTE_XOR_BE_simp: "BYTE_XOR_BE h x = x"
  by (cases h) (simp_all add: BYTE_XOR_BE_def)

lemma RB_formula_eq:
  "RB_formula (RH k) = 2 * unat k" "RB_formula (RLo k) = 2 * unat k + 1"
proof -
  show "RB_formula (RH k) = 2 * unat k"
    by (simp add: push_bit_eq_mult)
  have "2 * unat k XOR 1 = 2 * unat k + 1"
    using xor_1_nat [of "2 * unat k"] by simp
  then show "RB_formula (RLo k) = 2 * unat k + 1"
    by (simp add: push_bit_eq_mult mult.commute)
qed

subsection \<open>Bytes and words\<close>

lemma make_u16_bytes: "make_u16 (byte16 1 v) (byte16 0 v) = v"
  unfolding make_u16_def byte16_def
  by (rule bit_word_eqI) (auto simp add: bit_simps ac_simps)

lemma byte16_make_u16: "byte16 1 (make_u16 a b) = a" "byte16 0 (make_u16 a b) = b"
  unfolding make_u16_def byte16_def
  by (rule bit_word_eqI; auto simp add: bit_simps ac_simps dest: bit_imp_le_length)+

lemma byte32_high: "i < 4 \<Longrightarrow> byte32 i (ucast (drop_bit 32 (v :: u64))) = byte64 (i + 4) v"
  unfolding byte32_def byte64_def
  by (rule bit_word_eqI) (auto simp add: bit_simps ac_simps)

lemma byte32_low: "i < 4 \<Longrightarrow> byte32 i (ucast (v :: u64)) = byte64 i v"
  unfolding byte32_def byte64_def
  by (rule bit_word_eqI) (auto simp add: bit_simps ac_simps)

subsection \<open>A write through a view, seen byte by byte\<close>

lemma reg_byte_set_RB:
  "reg_byte h (set_RB h rf r v) p = (if p = RB_formula r then v else reg_byte h rf p)"
  by (cases h) (auto simp add: reg_byte_def set_RB_def BYTE8_XOR_BE_def xor_3_eq_iff xor.assoc)

lemma reg_byte_set_RW:
  "reg_byte h (set_RW h rf n v) p =
     (if p = 2 * unat n then byte16 1 v
      else if p = 2 * unat n + 1 then byte16 0 v else reg_byte h rf p)"
proof (cases h)
  case ENDIANNESS_LITTLE
  have a: "(p XOR 3 = 2 * (unat n XOR 1) + 1) = (p = 2 * unat n)"
    unfolding xor_3_eq_iff xor_3_odd xor_1_invol by (rule refl)
  have b: "(p XOR 3 = 2 * (unat n XOR 1)) = (p = 2 * unat n + 1)"
    unfolding xor_3_eq_iff xor_3_even xor_1_invol by (rule refl)
  show ?thesis
    unfolding ENDIANNESS_LITTLE reg_byte_def set_RW_def W_set_def BYTE8_XOR_BE_def
      BYTE4_XOR_BE_def endianness_t.case fun_upd_apply a b
    by (rule refl)
next
  case ENDIANNESS_BIG
  then show ?thesis
    by (simp add: reg_byte_def set_RW_def W_set_def BYTE8_XOR_BE_def BYTE4_XOR_BE_def)
qed

lemma reg_byte_L_set:
  "reg_byte h (L_set h rf k v) p =
     (if 4 * k \<le> p \<and> p < 4 * k + 4 then byte32 (4 * k + 3 - p) v else reg_byte h rf p)"
proof (cases h)
  case ENDIANNESS_LITTLE
  have e: "(p XOR 3 = 4 * k + i) = (p = 4 * k + (3 - i))" if "i < 4" for i
    using that by (simp add: xor_3_eq_iff xor_3_long)
  have e0: "(p XOR 3 = 4 * k) = (p = 4 * k + 3)"
    using e [of 0] by simp
  show ?thesis
    using e [of 1] e [of 2] e [of 3] e0
    by (auto simp add: ENDIANNESS_LITTLE reg_byte_def L_set_def BYTE8_XOR_BE_def)
next
  case ENDIANNESS_BIG
  have "p = 4 * k \<or> p = 4 * k + 1 \<or> p = 4 * k + 2 \<or> p = 4 * k + 3"
    if "4 * k \<le> p" "p < 4 * k + 4"
    using that by arith
  then show ?thesis
    by (auto simp add: ENDIANNESS_BIG reg_byte_def L_set_def BYTE8_XOR_BE_def)
qed

lemma reg_byte_set_RL:
  "reg_byte h (set_RL h rf n v) p =
     (if 4 * (unat n div 2) \<le> p \<and> p < 4 * (unat n div 2) + 4
      then byte32 (4 * (unat n div 2) + 3 - p) v else reg_byte h rf p)"
  by (simp add: set_RL_def reg_byte_L_set BYTE_XOR_BE_simp drop_bit_eq_div)

lemma reg_byte_set_RQ:
  "reg_byte h (set_RQ h rf n v) p =
     (if 8 * (unat n div 4) \<le> p \<and> p < 8 * (unat n div 4) + 8
      then byte64 (8 * (unat n div 4) + 7 - p) v else reg_byte h rf p)"
proof -
  define q where "q = unat n div 4"
  have hi: "byte32 (4 * (2 * q) + 3 - p) (ucast (drop_bit 32 v)) = byte64 (8 * q + 7 - p) v"
    if "8 * q \<le> p" "p < 8 * q + 4"
  proof -
    have "4 * (2 * q) + 3 - p < 4" "4 * (2 * q) + 3 - p + 4 = 8 * q + 7 - p"
      using that by arith+
    then show ?thesis using byte32_high [of "4 * (2 * q) + 3 - p" v] by simp
  qed
  have lo: "byte32 (4 * (2 * q + 1) + 3 - p) (ucast v) = byte64 (8 * q + 7 - p) v"
    if "8 * q + 4 \<le> p" "p < 8 * q + 8"
  proof -
    have "4 * (2 * q + 1) + 3 - p < 4" "4 * (2 * q + 1) + 3 - p = 8 * q + 7 - p"
      using that by arith+
    then show ?thesis using byte32_low [of "4 * (2 * q + 1) + 3 - p" v] by simp
  qed
  have q: "drop_bit 2 (unat n) = q"
    by (simp add: q_def drop_bit_eq_div)
  show ?thesis
    unfolding set_RQ_def reg_byte_L_set BYTE_XOR_BE_simp q q_def [symmetric]
    using hi lo by auto
qed

lemma reg_byte_do_write:
  "reg_byte h (do_write h rf w) p =
     (case written_byte w p of Some b \<Rightarrow> b | None \<Rightarrow> reg_byte h rf p)"
  by (cases w)
    (simp_all add: reg_byte_set_RB reg_byte_set_RW reg_byte_set_RL reg_byte_set_RQ)

lemma reg_byte_do_writes:
  "reg_byte h (do_writes h rf ws) p =
     (case last_written ws p of Some b \<Rightarrow> b | None \<Rightarrow> reg_byte h rf p)"
  by (induction ws arbitrary: rf) (simp_all add: reg_byte_do_write split: option.split)

subsection \<open>A read through a view, seen byte by byte\<close>

lemma RB_bytes: "RB h rf r = reg_byte h rf (RB_formula r)"
  by (simp add: RB_def reg_byte_def)

lemma RW_bytes:
  "RW h rf n = make_u16 (reg_byte h rf (2 * unat n)) (reg_byte h rf (2 * unat n + 1))"
proof (cases h)
  case ENDIANNESS_LITTLE
  show ?thesis
    unfolding ENDIANNESS_LITTLE RW_def W_get_def reg_byte_def BYTE8_XOR_BE_def
      BYTE4_XOR_BE_def endianness_t.case xor_3_even xor_3_odd
    by (rule refl)
next
  case ENDIANNESS_BIG
  then show ?thesis
    by (simp add: RW_def W_get_def reg_byte_def BYTE8_XOR_BE_def BYTE4_XOR_BE_def)
qed

lemma L_get_bytes:
  "L_get h rf k =
     make_u32 (reg_byte h rf (4 * k)) (reg_byte h rf (4 * k + 1))
              (reg_byte h rf (4 * k + 2)) (reg_byte h rf (4 * k + 3))"
proof (cases h)
  case ENDIANNESS_LITTLE
  have "(4 * k) XOR 3 = 4 * k + 3" "(4 * k + 1) XOR 3 = 4 * k + 2"
    "(4 * k + 2) XOR 3 = 4 * k + 1" "(4 * k + 3) XOR 3 = 4 * k"
    using xor_3_long [of 0 k] xor_3_long [of 1 k] xor_3_long [of 2 k] xor_3_long [of 3 k]
    by simp_all
  then show ?thesis
    by (simp add: ENDIANNESS_LITTLE L_get_def reg_byte_def BYTE8_XOR_BE_def)
next
  case ENDIANNESS_BIG
  then show ?thesis
    by (simp add: L_get_def reg_byte_def BYTE8_XOR_BE_def)
qed

lemma RL_bytes:
  "RL h rf n =
     make_u32 (reg_byte h rf (4 * (unat n div 2))) (reg_byte h rf (4 * (unat n div 2) + 1))
              (reg_byte h rf (4 * (unat n div 2) + 2)) (reg_byte h rf (4 * (unat n div 2) + 3))"
  by (simp add: RL_def L_get_bytes BYTE_XOR_BE_simp drop_bit_eq_div)

lemma RQ_bytes:
  "RQ h rf n =
     word_cat
       (make_u32 (reg_byte h rf (8 * (unat n div 4))) (reg_byte h rf (8 * (unat n div 4) + 1))
          (reg_byte h rf (8 * (unat n div 4) + 2)) (reg_byte h rf (8 * (unat n div 4) + 3)))
       (make_u32 (reg_byte h rf (8 * (unat n div 4) + 4)) (reg_byte h rf (8 * (unat n div 4) + 5))
          (reg_byte h rf (8 * (unat n div 4) + 6)) (reg_byte h rf (8 * (unat n div 4) + 7)))"
  by (simp add: RQ_def L_get_bytes BYTE_XOR_BE_simp drop_bit_eq_div ac_simps)

lemma RW_set_RW: "RW h (set_RW h rf n v) m = (if m = n then v else RW h rf m)"
proof -
  have "(2 * unat m = 2 * unat n) = (m = n)" "2 * unat m \<noteq> 2 * unat n + 1"
    "2 * unat m + 1 \<noteq> 2 * unat n" "(2 * unat m + 1 = 2 * unat n + 1) = (m = n)"
    by (auto simp add: word_unat_eq_iff) presburger+
  then show ?thesis
    using make_u16_bytes [of v] by (simp add: RW_bytes reg_byte_set_RW)
qed

subsection \<open>The examples of the specification\<close>

lemma RR0_example:
  "RW h (set_RL h rf 0 0x11223344) 0 = 0x1122"
  "RW h (set_RL h rf 0 0x11223344) 1 = 0x3344"
  "RB h (set_RL h rf 0 0x11223344) (RH 0) = 0x11"
  "RB h (set_RL h rf 0 0x11223344) (RLo 0) = 0x22"
  "RB h (set_RL h rf 0 0x11223344) (RH 1) = 0x33"
  "RB h (set_RL h rf 0 0x11223344) (RLo 1) = 0x44"
proof -
  have b: "byte32 3 0x11223344 = 0x11" "byte32 2 0x11223344 = 0x22"
    "byte32 (Suc 0) 0x11223344 = 0x33" "byte32 0 0x11223344 = 0x44"
    by (simp_all add: byte32_def)
  show "RW h (set_RL h rf 0 0x11223344) 0 = 0x1122"
    "RW h (set_RL h rf 0 0x11223344) 1 = 0x3344"
    "RB h (set_RL h rf 0 0x11223344) (RH 0) = 0x11"
    "RB h (set_RL h rf 0 0x11223344) (RLo 0) = 0x22"
    "RB h (set_RL h rf 0 0x11223344) (RH 1) = 0x33"
    "RB h (set_RL h rf 0 0x11223344) (RLo 1) = 0x44"
    by (simp_all add: RW_bytes RB_bytes reg_byte_set_RL b make_u16_def word_cat_eq)
qed

lemma RH_RL_of_RW:
  fixes k :: "3 word"
  shows "RB h (set_RW h rf (ucast k) W) (RH k) = ucast (drop_bit 8 W)"
    and "RB h (set_RW h rf (ucast k) W) (RLo k) = ucast (W AND 0xFF)"
proof -
  have "unat k < 2 ^ LENGTH(3)"
    by (rule unsigned_less)
  then have u: "unat (ucast k :: nibble) = unat k"
    by (simp add: unsigned_ucast_eq take_bit_nat_eq_self)
  have "W AND 0xFF = take_bit 8 W"
    by (simp add: take_bit_eq_mask mask_eq_exp_minus_1)
  then have l: "(ucast (W AND 0xFF) :: u8) = byte16 0 W"
    unfolding byte16_def
    by (simp add: unsigned_take_bit_eq take_bit_word_eq_self)
  show "RB h (set_RW h rf (ucast k) W) (RH k) = ucast (drop_bit 8 W)"
    by (simp add: RB_bytes reg_byte_set_RW u RB_formula_eq byte16_def del: RB_formula.simps)
  show "RB h (set_RW h rf (ucast k) W) (RLo k) = ucast (W AND 0xFF)"
    unfolding l by (simp add: RB_bytes reg_byte_set_RW u RB_formula_eq del: RB_formula.simps)
qed

text \<open>
  C3. On either host, a read through a view is assembled, most significant byte first,
  from the bytes of the register file that the view covers (first four conjuncts), and
  after any sequence of writes through any views each byte of the register file is the
  slice that the most recent write overlapping it stored there, or its old value when no
  write of the sequence overlaps it (fifth conjunct). So a read through any view returns
  the slices of the most recently written values. In particular, after the long write
  RR0 = 0x11223344 the words R0, R1 read 0x1122, 0x3344 and the bytes RH0, RL0, RH1, RL1
  read 0x11, 0x22, 0x33, 0x44; and after writing a word \<open>W\<close> to register \<open>k\<close> in 0..7,
  RH\<open>k\<close> reads \<open>W >> 8\<close> and RL\<open>k\<close> reads \<open>W & 0xFF\<close>.
\<close>

theorem register_views_coherent:
  fixes k :: "3 word"
  shows
  "RB h rf r = reg_byte h rf (RB_formula r) \<and>
   RW h rf n = make_u16 (reg_byte h rf (2 * unat n)) (reg_byte h rf (2 * unat n + 1)) \<and>
   RL h rf n =
     make_u32 (reg_byte h rf (4 * (unat n div 2))) (reg_byte h rf (4 * (unat n div 2) + 1))
              (reg_byte h rf (4 * (unat n div 2) + 2)) (reg_byte h rf (4 * (unat n div 2) + 3)) \<and>
   RQ h rf n =
     word_cat
       (make_u32 (reg_byte h rf (8 * (unat n div 4))) (reg_byte h rf (8 * (unat n div 4) + 1))
          (reg_byte h rf (8 * (unat n div 4) + 2)) (reg_byte h rf (8 * (unat n div 4) + 3)))
       (make_u32 (reg_byte h rf (8 * (unat n div 4) + 4)) (reg_byte h rf (8 * (unat n div 4) + 5))
          (reg_byte h rf (8 * (unat n div 4) + 6)) (reg_byte h rf (8 * (unat n div 4) + 7))) \<and>
   reg_byte h (do_writes h rf ws) p =
     (case last_written ws p of Some b \<Rightarrow> b | None \<Rightarrow> reg_byte h rf p) \<and>
   RW h (set_RL h rf 0 0x11223344) 0 = 0x1122 \<and>
   RW h (set_RL h rf 0 0x11223344) 1 = 0x3344 \<and>
   RB h (set_RL h rf 0 0x11223344) (RH 0) = 0x11 \<and>
   RB h (set_RL h rf 0 0x11223344) (RLo 0) = 0x22 \<and>
   RB h (set_RL h rf 0 0x11223344) (RH 1) = 0x33 \<and>
   RB h (set_RL h rf 0 0x11223344) (RLo 1) = 0x44 \<and>
   RB h (set_RW h rf (ucast k) W) (RH k) = ucast (drop_bit 8 W) \<and>
   RB h (set_RW h rf (ucast k) W) (RLo k) = ucast (W AND 0xFF)"
  using RB_bytes [of h rf r] RW_bytes [of h rf n] RL_bytes [of h rf n] RQ_bytes [of h rf n]
    reg_byte_do_writes [of h rf ws p] RR0_example [of h rf] RH_RL_of_RW [of h rf k W]
  by blast

section \<open>Properties of the CPU core\<close>

subsection \<open>Flags\<close>

lemma get_set_flag_same: "f \<noteq> 0 \<Longrightarrow> get_flag f (set_flag f b w) = b"
proof -
  assume f: "f \<noteq> 0"
  have "(w OR f) AND f = f" by (simp add: word_bw_comms word_ao_absorbs)
  moreover have "(w AND NOT f) AND f = 0" by (simp add: word_bw_assocs)
  ultimately show ?thesis using f by (simp add: get_flag_def set_flag_def)
qed

lemma get_set_flag_other: "f AND g = 0 \<Longrightarrow> get_flag f (set_flag g b w) = get_flag f w"
proof -
  assume fg: "f AND g = 0"
  have "(w OR g) AND f = (w AND f) OR (g AND f)"
    by (simp add: word_ao_dist)
  then have 1: "(w OR g) AND f = w AND f"
    using fg by (simp add: word_bw_comms)
  have "f AND NOT g = f"
    using fg by (rule_tac bit_word_eqI) (auto simp add: bit_simps bit_eq_iff)
  then have 2: "(w AND NOT g) AND f = w AND f"
    by (metis word_bw_assocs(1) word_bw_comms(1))
  show ?thesis
    by (simp add: get_flag_def set_flag_def 1 2)
qed

lemma set_flag_frame: "g AND k = 0 \<Longrightarrow> set_flag g b w AND k = w AND k"
proof -
  assume gk: "g AND k = 0"
  have 1: "(w OR g) AND k = w AND k"
    using gk by (simp add: word_ao_dist)
  have "NOT g AND k = k"
    using gk by (rule_tac bit_word_eqI) (auto simp add: bit_simps bit_eq_iff)
  then have 2: "(w AND NOT g) AND k = w AND k"
    by (simp add: word_bw_assocs)
  show ?thesis by (simp add: set_flag_def 1 2)
qed

lemma get_flag_S_N: "get_flag F_S_N w = bit w 14"
proof -
  have "F_S_N = 2 ^ 14" by (simp add: F_S_N_def)
  then show ?thesis
    using and_exp_eq_0_iff_not_bit [of w 14] by (simp add: get_flag_def)
qed

lemma flags_nonzero:
  "F_C \<noteq> 0" "F_Z \<noteq> 0" "F_S \<noteq> 0" "F_PV \<noteq> 0" "F_H \<noteq> 0" "F_S_N \<noteq> 0"
  by (simp_all add: F_C_def F_Z_def F_S_def F_PV_def F_H_def F_S_N_def)

lemma flags_disjoint:
  "F_C AND F_Z = 0" "F_C AND F_S = 0" "F_C AND F_PV = 0" "F_C AND F_H = 0"
  "F_Z AND F_C = 0" "F_Z AND F_S = 0" "F_Z AND F_PV = 0" "F_Z AND F_H = 0"
  "F_S AND F_C = 0" "F_S AND F_Z = 0" "F_S AND F_PV = 0" "F_S AND F_H = 0"
  "F_PV AND F_C = 0" "F_PV AND F_Z = 0" "F_PV AND F_S = 0" "F_PV AND F_H = 0"
  "F_H AND F_C = 0" "F_H AND F_Z = 0" "F_H AND F_S = 0" "F_H AND F_PV = 0"
  by (simp_all add: F_C_def F_Z_def F_S_def F_PV_def F_H_def)

lemmas flag_reads = get_set_flag_same get_set_flag_other flags_nonzero flags_disjoint

lemma zsvh_frame:
  "set_flag F_H b1 (set_flag F_PV b2 (set_flag F_S b3 (set_flag F_Z b4 w)))
     AND NOT (F_Z OR F_S OR F_PV OR F_H) = w AND NOT (F_Z OR F_S OR F_PV OR F_H)"
proof -
  have "F_H AND NOT (F_Z OR F_S OR F_PV OR F_H) = 0" "F_PV AND NOT (F_Z OR F_S OR F_PV OR F_H) = 0"
    "F_S AND NOT (F_Z OR F_S OR F_PV OR F_H) = 0" "F_Z AND NOT (F_Z OR F_S OR F_PV OR F_H) = 0"
    by (simp_all add: F_Z_def F_S_def F_PV_def F_H_def)
  then show ?thesis by (simp only: set_flag_frame)
qed

subsection \<open>Memory and the example states\<close>

lemma read_write_word_same: "read_word (write_word m a v) a = v"
  using make_u16_bytes [of v] by (simp add: read_word_def write_word_def)

lemma read_write_word_other:
  "b \<noteq> a \<Longrightarrow> b \<noteq> a + 1 \<Longrightarrow> b + 1 \<noteq> a \<Longrightarrow> read_word (write_word m a v) b = read_word m b"
  by (simp add: read_word_def write_word_def)

lemma read_word_zero: "read_word (\<lambda>_. 0) a = 0"
  by (simp add: read_word_def make_u16_def word_cat_eq)

lemma RW_zero: "RW h (\<lambda>_. 0) n = 0"
  by (cases h) (simp_all add: RW_def W_get_def make_u16_def word_cat_eq)

lemma cpu_create_simps:
  "regs (cpu_create rf m inp) = rf" "mem (cpu_create rf m inp) = m"
  "pc (cpu_create rf m inp) = read_word m 4" "fcw (cpu_create rf m inp) = read_word m 2"
  "psap (cpu_create rf m inp) = 0" "halt (cpu_create rf m inp) = False"
  by (simp_all add: cpu_create_def reset_def)

lemmas memory_reads = read_write_word_same read_write_word_other read_word_zero

subsection \<open>Trap entry and reset\<close>

lemma push_word_simps:
  "regs (push_word h v s) = set_RW h (regs s) 15 (RW h (regs s) 15 - 2)"
  "mem (push_word h v s) = write_word (mem s) (RW h (regs s) 15 - 2) v"
  "pc (push_word h v s) = pc s" "fcw (push_word h v s) = fcw s"
  "psap (push_word h v s) = psap s" "halt (push_word h v s) = halt s"
  "irq_req (push_word h v s) = irq_req s"
  by (simp_all add: push_word_def Let_def)

lemma normal_mode_state_simps:
  "regs normal_mode_state = set_RW ENDIANNESS_LITTLE (\<lambda>_. 0) 15 0x1E00"
  "mem normal_mode_state = normal_mode_memory"
  "pc normal_mode_state = 0x0102" "fcw normal_mode_state = 0" "psap normal_mode_state = 0"
  "halt normal_mode_state = False"
  by (simp_all add: normal_mode_state_def cpu_create_simps normal_mode_memory_def memory_reads)

text \<open>
  C2. The reset operation, and the creation of a CPU, set PSAP to 0, load the FCW from
  the memory word at address 2 and the PC from the memory word at address 4, and clear
  the pending-interrupt latches, the halt flag and the refresh register. The general
  registers are not touched: a reset keeps them, and a new CPU has whatever register
  content it was given.
\<close>

theorem reset_state:
  "psap (reset s) = 0 \<and>
   fcw (reset s) = read_word (mem s) 2 \<and>
   pc (reset s) = read_word (mem s) 4 \<and>
   irq_req (reset s) = {} \<and> \<not> nmi_pending (reset s) \<and>
   \<not> halt (reset s) \<and> refresh (reset s) = 0 \<and>
   regs (reset s) = regs s \<and> mem (reset s) = mem s \<and>
   psap (cpu_create rf m inp) = 0 \<and>
   fcw (cpu_create rf m inp) = read_word m 2 \<and>
   pc (cpu_create rf m inp) = read_word m 4 \<and>
   irq_req (cpu_create rf m inp) = {} \<and> \<not> nmi_pending (cpu_create rf m inp) \<and>
   \<not> halt (cpu_create rf m inp) \<and> refresh (cpu_create rf m inp) = 0 \<and>
   regs (cpu_create rf m inp) = rf \<and> mem (cpu_create rf m inp) = m"
  by (simp add: reset_def cpu_create_def)

subsection \<open>HALT in normal mode\<close>

lemma u16_distinct:
  "(a::u16) - 2 \<noteq> a - 4" "(a::u16) - 2 \<noteq> a - 4 + 1" "(a::u16) - 2 + 1 \<noteq> a - 4"
  "(a::u16) - 4 + 1 \<noteq> a - 4" "(a::u16) - 2 + 1 \<noteq> a - 2"
  by simp_all

lemma trap_entry_privileged:
  "trap_entry h TRAP_PRIVILEGED ident s =
     (let sp = RW h (regs s) 15;
          m' = write_word (write_word (mem s) (sp - 2) (fcw s)) (sp - 4) (pc s)
      in s\<lparr>regs := set_RW h (set_RW h (regs s) 15 (sp - 2)) 15 (sp - 4),
            mem := m',
            fcw := read_word m' (psap s + 0x000A),
            pc := read_word m' (psap s + 0x000C),
            irq_req := irq_req s - {TRAP_PRIVILEGED}\<rparr>)"
  by (simp add: trap_entry_def Let_def push_word_def RW_set_RW)

text \<open>
  C6. In every state with FCW bit 14 clear, the HALT handler leaves the halt flag as it
  was and produces exactly the state of the trap-entry protocol for the
  privileged-instruction trap, whatever identifier the protocol is given: the stack
  pointer is lowered by 4, the old FCW is on the stack at SP - 2 and the old PC at
  SP - 4, and the new FCW and PC are the words at PSAP + 0x0A and PSAP + 0x0C.
\<close>

theorem halt_in_normal_mode:
  assumes "\<not> bit (fcw s) 14"
  shows "op_HALT h opcode s = trap_entry h TRAP_PRIVILEGED ident s \<and>
    halt (op_HALT h opcode s) = halt s \<and>
    RW h (regs (op_HALT h opcode s)) 15 = RW h (regs s) 15 - 4 \<and>
    read_word (mem (op_HALT h opcode s)) (RW h (regs s) 15 - 2) = fcw s \<and>
    read_word (mem (op_HALT h opcode s)) (RW h (regs s) 15 - 4) = pc s \<and>
    fcw (op_HALT h opcode s) = read_word (mem (op_HALT h opcode s)) (psap s + 0x000A) \<and>
    pc (op_HALT h opcode s) = read_word (mem (op_HALT h opcode s)) (psap s + 0x000C)"
proof -
  have e: "op_HALT h opcode s = trap_entry h TRAP_PRIVILEGED ident s"
    using assms by (simp add: op_HALT_def get_flag_S_N trap_entry_privileged)
  show ?thesis
    unfolding e
    by (simp add: trap_entry_privileged Let_def RW_set_RW read_write_word_same
          read_write_word_other u16_distinct)
qed

theorem halt_in_normal_mode_witness:
  "\<not> bit (fcw normal_mode_state) 14 \<and>
   op_HALT ENDIANNESS_LITTLE 0x7A00 normal_mode_state =
     trap_entry ENDIANNESS_LITTLE TRAP_PRIVILEGED 0 normal_mode_state \<and>
   \<not> halt (op_HALT ENDIANNESS_LITTLE 0x7A00 normal_mode_state) \<and>
   RW ENDIANNESS_LITTLE (regs (op_HALT ENDIANNESS_LITTLE 0x7A00 normal_mode_state)) 15 = 0x1DFC \<and>
   read_word (mem (op_HALT ENDIANNESS_LITTLE 0x7A00 normal_mode_state)) 0x1DFE = 0 \<and>
   read_word (mem (op_HALT ENDIANNESS_LITTLE 0x7A00 normal_mode_state)) 0x1DFC = 0x0102"
proof -
  have n: "\<not> bit (fcw normal_mode_state) 14"
    by (simp add: normal_mode_state_simps)
  show ?thesis
    using n halt_in_normal_mode [OF n, of ENDIANNESS_LITTLE "0x7A00" 0]
    by (auto simp add: normal_mode_state_simps RW_set_RW)
qed

subsection \<open>INC and DEC\<close>

lemma uint_nonneg: "0 \<le> uint (v :: 'a :: len word)"
  by simp

lemma signed_take_bit_wrap:
  fixes x :: int
  shows "- (2 ^ n) \<le> x \<Longrightarrow> x < 2 ^ n \<Longrightarrow> signed_take_bit n x = x"
    and "2 ^ n \<le> x \<Longrightarrow> x < 3 * 2 ^ n \<Longrightarrow> signed_take_bit n x = x - 2 * 2 ^ n"
    and "- (3 * 2 ^ n) \<le> x \<Longrightarrow> x < - (2 ^ n) \<Longrightarrow> signed_take_bit n x = x + 2 * 2 ^ n"
proof -
  show "- (2 ^ n) \<le> x \<Longrightarrow> x < 2 ^ n \<Longrightarrow> signed_take_bit n x = x"
    by (rule signed_take_bit_int_eq_self)
  have f: "signed_take_bit n y = (y + 2 ^ n) mod (2 * 2 ^ n) - 2 ^ n" for y :: int
    by (simp add: signed_take_bit_eq_take_bit_shift take_bit_eq_mod)
  show "signed_take_bit n x = x - 2 * 2 ^ n" if "2 ^ n \<le> x" "x < 3 * 2 ^ n"
  proof -
    have "(x + 2 ^ n) mod (2 * 2 ^ n) = (x - 2 ^ n + 2 * 2 ^ n) mod (2 * 2 ^ n)"
      by (simp add: algebra_simps)
    also have "\<dots> = (x - 2 ^ n) mod (2 * 2 ^ n)"
      by (rule mod_add_self2)
    also have "\<dots> = x - 2 ^ n"
      using that by (intro mod_pos_pos_trivial) simp_all
    finally show ?thesis unfolding f by simp
  qed
  show "signed_take_bit n x = x + 2 * 2 ^ n" if "- (3 * 2 ^ n) \<le> x" "x < - (2 ^ n)"
  proof -
    have "(x + 2 ^ n) mod (2 * 2 ^ n) = (x + 2 ^ n + 2 * 2 ^ n) mod (2 * 2 ^ n)"
      by (simp only: mod_add_self2)
    also have "\<dots> = x + 2 ^ n + 2 * 2 ^ n"
      using that by (intro mod_pos_pos_trivial) simp_all
    finally show ?thesis unfolding f by simp
  qed
qed

text \<open>
  Adding or subtracting a value that is not negative: the sign flips the wrong way
  exactly when the signed result leaves the range of the type.
\<close>

lemma add_wraps_iff:
  fixes a val :: "'a :: len word"
  assumes "uint val < 2 ^ (LENGTH('a) - 1)"
  shows "(0 \<le> sint a \<and> sint (a + val) < 0) = (2 ^ (LENGTH('a) - 1) \<le> sint a + uint val)"
    and "sint val = uint val"
proof -
  let ?n = "LENGTH('a) - 1"
  have ra: "- (2 ^ ?n) \<le> sint a" "sint a < 2 ^ ?n"
    using sint_ge [of a] sint_lt [of a] by simp_all
  show v: "sint val = uint val"
    using assms signed_take_bit_wrap(1) [of ?n "uint val"] uint_nonneg [of val] ra
    by (simp add: sint_uint)
  have r: "sint (a + val) = signed_take_bit ?n (sint a + uint val)"
    by (simp add: sint_word_add v)
  show "(0 \<le> sint a \<and> sint (a + val) < 0) = (2 ^ ?n \<le> sint a + uint val)"
  proof (cases "sint a + uint val < 2 ^ ?n")
    case True
    have "- (2 ^ ?n) \<le> sint a + uint val"
      using ra(1) uint_nonneg [of val] by linarith
    with True have "sint (a + val) = sint a + uint val"
      unfolding r by (rule_tac signed_take_bit_wrap(1))
    then have "\<not> (0 \<le> sint a \<and> sint (a + val) < 0)"
      using uint_nonneg [of val] by linarith
    moreover have "\<not> 2 ^ ?n \<le> sint a + uint val"
      using True by linarith
    ultimately show ?thesis by blast
  next
    case False
    have "(0::int) < 2 ^ ?n"
      by simp
    then have "sint a + uint val < 3 * 2 ^ ?n"
      using ra(2) assms by linarith
    with False have "sint (a + val) = sint a + uint val - 2 * 2 ^ ?n"
      unfolding r by (intro signed_take_bit_wrap(2)) simp_all
    then have "0 \<le> sint a \<and> sint (a + val) < 0"
      using False assms ra by linarith
    with False show ?thesis by simp
  qed
qed

lemma sub_wraps_iff:
  fixes a val :: "'a :: len word"
  assumes "uint val < 2 ^ (LENGTH('a) - 1)"
  shows "(sint a < 0 \<and> 0 \<le> sint (a - val)) = (sint a - uint val < - (2 ^ (LENGTH('a) - 1)))"
proof -
  let ?n = "LENGTH('a) - 1"
  have ra: "- (2 ^ ?n) \<le> sint a" "sint a < 2 ^ ?n"
    using sint_ge [of a] sint_lt [of a] by simp_all
  have v: "sint val = uint val"
    using assms by (rule add_wraps_iff(2))
  have r: "sint (a - val) = signed_take_bit ?n (sint a - uint val)"
    by (simp add: sint_word_diff v)
  show ?thesis
  proof (cases "- (2 ^ ?n) \<le> sint a - uint val")
    case True
    have "sint a - uint val < 2 ^ ?n"
      using ra(2) uint_nonneg [of val] by linarith
    with True have "sint (a - val) = sint a - uint val"
      unfolding r by (rule_tac signed_take_bit_wrap(1))
    then have "\<not> (sint a < 0 \<and> 0 \<le> sint (a - val))"
      using uint_nonneg [of val] by linarith
    moreover have "\<not> sint a - uint val < - (2 ^ ?n)"
      using True by linarith
    ultimately show ?thesis by blast
  next
    case False
    have "(0::int) < 2 ^ ?n"
      by simp
    then have "- (3 * 2 ^ ?n) \<le> sint a - uint val"
      using ra(1) assms by linarith
    with False have "sint (a - val) = sint a - uint val + 2 * 2 ^ ?n"
      unfolding r by (intro signed_take_bit_wrap(3)) simp_all
    then have "sint a < 0 \<and> 0 \<le> sint (a - val)"
      using False assms ra by linarith
    with False show ?thesis by simp
  qed
qed

lemma bit15_sint: "bit (w::u16) 15 = (sint w < 0)"
  using bit_last_iff [of w] by simp

lemma bit7_sint: "bit (w::u8) 7 = (sint w < 0)"
  using bit_last_iff [of w] by simp

lemma uint_inc_val:
  "uint (ucast (i4 :: nibble) + 1 :: u16) = uint i4 + 1"
  "uint (ucast (i4 :: nibble) + 1 :: u8) = uint i4 + 1"
  "uint i4 < 16"
proof -
  show l: "uint i4 < 16"
    using unsigned_less [of i4, where 'a = int] by simp
  have "uint (ucast i4 :: u16) = uint i4" "uint (ucast i4 :: u8) = uint i4"
    using l by (simp_all add: unsigned_ucast_eq take_bit_int_eq_self)
  then show "uint (ucast i4 + 1 :: u16) = uint i4 + 1" "uint (ucast i4 + 1 :: u8) = uint i4 + 1"
    using l uint_nonneg [of i4]
    by (simp_all add: uint_word_ariths mod_pos_pos_trivial)
qed

lemma overflow_as_sign:
  "\<not> bit val 15 \<Longrightarrow> add_overflow_word a val r = (0 \<le> sint a \<and> sint r < 0)"
  "\<not> bit val 15 \<Longrightarrow> sub_overflow_word a val r = (sint a < 0 \<and> 0 \<le> sint r)"
  "\<not> bit val8 7 \<Longrightarrow> add_overflow_byte a8 val8 r8 = (0 \<le> sint a8 \<and> sint r8 < 0)"
  "\<not> bit val8 7 \<Longrightarrow> sub_overflow_byte a8 val8 r8 = (sint a8 < 0 \<and> 0 \<le> sint r8)"
proof -
  show "\<not> bit val 15 \<Longrightarrow> add_overflow_word a val r = (0 \<le> sint a \<and> sint r < 0)"
    using drop_bit_eq_zero_iff_not_bit_last [of "NOT (a XOR val) AND (a XOR r)"]
      bit_last_iff [of a] bit_last_iff [of r]
    by (auto simp add: add_overflow_word_def bit_simps)
  show "\<not> bit val 15 \<Longrightarrow> sub_overflow_word a val r = (sint a < 0 \<and> 0 \<le> sint r)"
    using drop_bit_eq_zero_iff_not_bit_last [of "(a XOR val) AND (a XOR r)"]
      bit_last_iff [of a] bit_last_iff [of r]
    by (auto simp add: sub_overflow_word_def bit_simps)
  show "\<not> bit val8 7 \<Longrightarrow> add_overflow_byte a8 val8 r8 = (0 \<le> sint a8 \<and> sint r8 < 0)"
    using drop_bit_eq_zero_iff_not_bit_last [of "NOT (a8 XOR val8) AND (a8 XOR r8)"]
      bit_last_iff [of a8] bit_last_iff [of r8]
    by (auto simp add: add_overflow_byte_def bit_simps)
  show "\<not> bit val8 7 \<Longrightarrow> sub_overflow_byte a8 val8 r8 = (sint a8 < 0 \<and> 0 \<le> sint r8)"
    using drop_bit_eq_zero_iff_not_bit_last [of "(a8 XOR val8) AND (a8 XOR r8)"]
      bit_last_iff [of a8] bit_last_iff [of r8]
    by (auto simp add: sub_overflow_byte_def bit_simps)
qed

lemma small_not_negative:
  "uint (val :: u16) < 32768 \<Longrightarrow> \<not> bit val 15"
  "uint (val8 :: u8) < 128 \<Longrightarrow> \<not> bit val8 7"
  using add_wraps_iff(2) [of val] add_wraps_iff(2) [of val8]
    bit_last_iff [of val] bit_last_iff [of val8] uint_nonneg [of val] uint_nonneg [of val8]
  by simp_all

lemma uint_and_mask: "uint (w AND mask k :: 'a :: len word) = uint w mod 2 ^ k"
proof -
  have "w AND mask k = take_bit k w"
    by (simp add: take_bit_eq_mask)
  then have "uint (w AND mask k) = take_bit k (uint w)"
    by (simp only: unsigned_take_bit_eq)
  then show ?thesis
    by (simp only: take_bit_eq_mod)
qed

lemma low_masks:
  "(0x0FFF :: u16) = mask 12" "(0x0F :: u8) = mask 4"
  by (simp_all add: mask_eq_exp_minus_1)

lemma bit_of_small_sum:
  fixes k :: int
  assumes "0 \<le> k" "k < 2 * 2 ^ n"
  shows "bit k n = (2 ^ n \<le> k)"
proof (cases "k < 2 ^ n")
  case True
  then have "k div 2 ^ n = 0" using assms by (simp add: div_pos_pos_trivial)
  with True show ?thesis by (simp add: bit_iff_odd)
next
  case False
  then have "0 \<le> k - 2 ^ n" "k - 2 ^ n < 2 ^ n" using assms by simp_all
  then have "(k - 2 ^ n) div 2 ^ n = 0" by (simp add: div_pos_pos_trivial)
  moreover have "k div 2 ^ n = (k - 2 ^ n) div 2 ^ n + 1"
    using div_add_self2 [of "2 ^ n" "k - 2 ^ n"] by simp
  ultimately have "k div 2 ^ n = 1" by simp
  with False show ?thesis by (simp add: bit_iff_odd)
qed

lemma add_half_carry_word_iff:
  "add_half_carry_word a val = (4096 \<le> uint a mod 4096 + uint val mod 4096)"
proof -
  let ?x = "a AND mask 12" and ?y = "val AND mask 12"
  have x: "uint ?x = uint a mod 4096" and y: "uint ?y = uint val mod 4096"
    by (simp_all add: uint_and_mask)
  have b: "0 \<le> uint a mod 4096" "uint a mod 4096 < 4096"
    "0 \<le> uint val mod 4096" "uint val mod 4096 < 4096"
    by simp_all
  then have s: "uint (?x + ?y) = uint a mod 4096 + uint val mod 4096"
    unfolding uint_word_ariths x y by (intro mod_pos_pos_trivial) simp_all
  have "bit (?x + ?y) 12 = bit (uint (?x + ?y)) 12"
    by (simp add: bit_uint_iff)
  also have "\<dots> = (2 ^ 12 \<le> uint (?x + ?y))"
    unfolding s using b by (intro bit_of_small_sum) simp_all
  finally show ?thesis
    by (simp add: add_half_carry_word_def low_masks s)
qed

lemma add_half_carry_byte_iff:
  "add_half_carry_byte a val = (16 \<le> uint a mod 16 + uint val mod 16)"
proof -
  let ?x = "a AND mask 4" and ?y = "val AND mask 4"
  have x: "uint ?x = uint a mod 16" and y: "uint ?y = uint val mod 16"
    by (simp_all add: uint_and_mask)
  have b: "0 \<le> uint a mod 16" "uint a mod 16 < 16"
    "0 \<le> uint val mod 16" "uint val mod 16 < 16"
    by simp_all
  then have s: "uint (?x + ?y) = uint a mod 16 + uint val mod 16"
    unfolding uint_word_ariths x y by (intro mod_pos_pos_trivial) simp_all
  have "bit (?x + ?y) 4 = bit (uint (?x + ?y)) 4"
    by (simp add: bit_uint_iff)
  also have "\<dots> = (2 ^ 4 \<le> uint (?x + ?y))"
    unfolding s using b by (intro bit_of_small_sum) simp_all
  finally show ?thesis
    by (simp add: add_half_carry_byte_def low_masks s)
qed

lemma sub_half_borrow_iff:
  "sub_half_borrow_word a val = (uint a mod 4096 < uint val mod 4096)"
  "sub_half_borrow_byte a8 val8 = (uint a8 mod 16 < uint val8 mod 16)"
  by (simp_all add: sub_half_borrow_word_def sub_half_borrow_byte_def low_masks
        word_less_alt uint_and_mask)

lemma INCW_flags:
  "fst (INCW flags dest i4) = dest + (ucast i4 + 1)"
  "get_flag F_C (snd (INCW flags dest i4)) = get_flag F_C flags"
  "get_flag F_Z (snd (INCW flags dest i4)) = (fst (INCW flags dest i4) = 0)"
  "get_flag F_S (snd (INCW flags dest i4)) = (sint (fst (INCW flags dest i4)) < 0)"
  "get_flag F_PV (snd (INCW flags dest i4)) = (32767 < sint dest + (uint i4 + 1))"
  "get_flag F_H (snd (INCW flags dest i4)) = (4096 \<le> uint dest mod 4096 + (uint i4 + 1))"
  "snd (INCW flags dest i4) AND NOT (F_Z OR F_S OR F_PV OR F_H) =
     flags AND NOT (F_Z OR F_S OR F_PV OR F_H)"
proof -
  let ?val = "ucast i4 + 1 :: u16"
  have u: "uint ?val = uint i4 + 1" "uint ?val < 32768" "uint ?val mod 4096 = uint i4 + 1"
    using uint_inc_val(1,3) [of i4] uint_nonneg [of i4] by (simp_all add: mod_pos_pos_trivial)
  show "fst (INCW flags dest i4) = dest + (ucast i4 + 1)"
    by (simp add: INCW_def Let_def)
  show "get_flag F_C (snd (INCW flags dest i4)) = get_flag F_C flags"
    by (simp add: INCW_def Let_def flag_reads)
  show "get_flag F_Z (snd (INCW flags dest i4)) = (fst (INCW flags dest i4) = 0)"
    by (simp add: INCW_def Let_def flag_reads)
  show "get_flag F_S (snd (INCW flags dest i4)) = (sint (fst (INCW flags dest i4)) < 0)"
    by (simp add: INCW_def Let_def flag_reads bit15_sint)
  have "get_flag F_PV (snd (INCW flags dest i4)) = add_overflow_word dest ?val (dest + ?val)"
    by (simp add: INCW_def Let_def flag_reads)
  also have "\<dots> = (2 ^ (LENGTH(16) - 1) \<le> sint dest + uint ?val)"
    using overflow_as_sign(1) [OF small_not_negative(1) [OF u(2)], of dest "dest + ?val"]
      add_wraps_iff(1) [of ?val dest] u(2)
    by simp
  finally show "get_flag F_PV (snd (INCW flags dest i4)) = (32767 < sint dest + (uint i4 + 1))"
    unfolding u(1) by simp arith
  show "get_flag F_H (snd (INCW flags dest i4)) = (4096 \<le> uint dest mod 4096 + (uint i4 + 1))"
    by (simp add: INCW_def Let_def flag_reads add_half_carry_word_iff u(3))
  show "snd (INCW flags dest i4) AND NOT (F_Z OR F_S OR F_PV OR F_H) =
     flags AND NOT (F_Z OR F_S OR F_PV OR F_H)"
    unfolding INCW_def Let_def snd_conv by (rule zsvh_frame)
qed

lemma DECW_flags:
  "fst (DECW flags dest i4) = dest - (ucast i4 + 1)"
  "get_flag F_C (snd (DECW flags dest i4)) = get_flag F_C flags"
  "get_flag F_Z (snd (DECW flags dest i4)) = (fst (DECW flags dest i4) = 0)"
  "get_flag F_S (snd (DECW flags dest i4)) = (sint (fst (DECW flags dest i4)) < 0)"
  "get_flag F_PV (snd (DECW flags dest i4)) = (sint dest - (uint i4 + 1) < - 32768)"
  "get_flag F_H (snd (DECW flags dest i4)) = (uint dest mod 4096 < uint i4 + 1)"
  "snd (DECW flags dest i4) AND NOT (F_Z OR F_S OR F_PV OR F_H) =
     flags AND NOT (F_Z OR F_S OR F_PV OR F_H)"
proof -
  let ?val = "ucast i4 + 1 :: u16"
  have u: "uint ?val = uint i4 + 1" "uint ?val < 32768" "uint ?val mod 4096 = uint i4 + 1"
    using uint_inc_val(1,3) [of i4] uint_nonneg [of i4] by (simp_all add: mod_pos_pos_trivial)
  show "fst (DECW flags dest i4) = dest - (ucast i4 + 1)"
    by (simp add: DECW_def Let_def)
  show "get_flag F_C (snd (DECW flags dest i4)) = get_flag F_C flags"
    by (simp add: DECW_def Let_def flag_reads)
  show "get_flag F_Z (snd (DECW flags dest i4)) = (fst (DECW flags dest i4) = 0)"
    by (simp add: DECW_def Let_def flag_reads)
  show "get_flag F_S (snd (DECW flags dest i4)) = (sint (fst (DECW flags dest i4)) < 0)"
    by (simp add: DECW_def Let_def flag_reads bit15_sint)
  have "get_flag F_PV (snd (DECW flags dest i4)) = sub_overflow_word dest ?val (dest - ?val)"
    by (simp add: DECW_def Let_def flag_reads)
  also have "\<dots> = (sint dest - uint ?val < - (2 ^ (LENGTH(16) - 1)))"
    using overflow_as_sign(2) [OF small_not_negative(1) [OF u(2)], of dest "dest - ?val"]
      sub_wraps_iff [of ?val dest] u(2)
    by simp
  finally show "get_flag F_PV (snd (DECW flags dest i4)) = (sint dest - (uint i4 + 1) < - 32768)"
    unfolding u(1) by simp
  show "get_flag F_H (snd (DECW flags dest i4)) = (uint dest mod 4096 < uint i4 + 1)"
    by (simp add: DECW_def Let_def flag_reads sub_half_borrow_iff u(3))
  show "snd (DECW flags dest i4) AND NOT (F_Z OR F_S OR F_PV OR F_H) =
     flags AND NOT (F_Z OR F_S OR F_PV OR F_H)"
    unfolding DECW_def Let_def snd_conv by (rule zsvh_frame)
qed

lemma INCB_flags:
  "fst (INCB flags dest8 i4) = dest8 + (ucast i4 + 1)"
  "get_flag F_C (snd (INCB flags dest8 i4)) = get_flag F_C flags"
  "get_flag F_Z (snd (INCB flags dest8 i4)) = (fst (INCB flags dest8 i4) = 0)"
  "get_flag F_S (snd (INCB flags dest8 i4)) = (sint (fst (INCB flags dest8 i4)) < 0)"
  "get_flag F_PV (snd (INCB flags dest8 i4)) = (127 < sint dest8 + (uint i4 + 1))"
  "get_flag F_H (snd (INCB flags dest8 i4)) = (16 \<le> uint dest8 mod 16 + (uint i4 + 1) mod 16)"
  "snd (INCB flags dest8 i4) AND NOT (F_Z OR F_S OR F_PV OR F_H) =
     flags AND NOT (F_Z OR F_S OR F_PV OR F_H)"
proof -
  let ?val = "ucast i4 + 1 :: u8"
  have u: "uint ?val = uint i4 + 1" "uint ?val < 128"
    using uint_inc_val(2,3) [of i4] by simp_all
  show "fst (INCB flags dest8 i4) = dest8 + (ucast i4 + 1)"
    by (simp add: INCB_def Let_def)
  show "get_flag F_C (snd (INCB flags dest8 i4)) = get_flag F_C flags"
    by (simp add: INCB_def Let_def flag_reads)
  show "get_flag F_Z (snd (INCB flags dest8 i4)) = (fst (INCB flags dest8 i4) = 0)"
    by (simp add: INCB_def Let_def flag_reads)
  show "get_flag F_S (snd (INCB flags dest8 i4)) = (sint (fst (INCB flags dest8 i4)) < 0)"
    by (simp add: INCB_def Let_def flag_reads bit7_sint)
  have "get_flag F_PV (snd (INCB flags dest8 i4)) = add_overflow_byte dest8 ?val (dest8 + ?val)"
    by (simp add: INCB_def Let_def flag_reads)
  also have "\<dots> = (2 ^ (LENGTH(8) - 1) \<le> sint dest8 + uint ?val)"
    using overflow_as_sign(3) [OF small_not_negative(2) [OF u(2)], of dest8 "dest8 + ?val"]
      add_wraps_iff(1) [of ?val dest8] u(2)
    by simp
  finally show "get_flag F_PV (snd (INCB flags dest8 i4)) = (127 < sint dest8 + (uint i4 + 1))"
    unfolding u(1) by simp arith
  show "get_flag F_H (snd (INCB flags dest8 i4)) = (16 \<le> uint dest8 mod 16 + (uint i4 + 1) mod 16)"
    unfolding u(1) [symmetric]
    by (simp add: INCB_def Let_def flag_reads add_half_carry_byte_iff)
  show "snd (INCB flags dest8 i4) AND NOT (F_Z OR F_S OR F_PV OR F_H) =
     flags AND NOT (F_Z OR F_S OR F_PV OR F_H)"
    unfolding INCB_def Let_def snd_conv by (rule zsvh_frame)
qed

lemma DECB_flags:
  "fst (DECB flags dest8 i4) = dest8 - (ucast i4 + 1)"
  "get_flag F_C (snd (DECB flags dest8 i4)) = get_flag F_C flags"
  "get_flag F_Z (snd (DECB flags dest8 i4)) = (fst (DECB flags dest8 i4) = 0)"
  "get_flag F_S (snd (DECB flags dest8 i4)) = (sint (fst (DECB flags dest8 i4)) < 0)"
  "get_flag F_PV (snd (DECB flags dest8 i4)) = (sint dest8 - (uint i4 + 1) < - 128)"
  "get_flag F_H (snd (DECB flags dest8 i4)) = (uint dest8 mod 16 < (uint i4 + 1) mod 16)"
  "snd (DECB flags dest8 i4) AND NOT (F_Z OR F_S OR F_PV OR F_H) =
     flags AND NOT (F_Z OR F_S OR F_PV OR F_H)"
proof -
  let ?val = "ucast i4 + 1 :: u8"
  have u: "uint ?val = uint i4 + 1" "uint ?val < 128"
    using uint_inc_val(2,3) [of i4] by simp_all
  show "fst (DECB flags dest8 i4) = dest8 - (ucast i4 + 1)"
    by (simp add: DECB_def Let_def)
  show "get_flag F_C (snd (DECB flags dest8 i4)) = get_flag F_C flags"
    by (simp add: DECB_def Let_def flag_reads)
  show "get_flag F_Z (snd (DECB flags dest8 i4)) = (fst (DECB flags dest8 i4) = 0)"
    by (simp add: DECB_def Let_def flag_reads)
  show "get_flag F_S (snd (DECB flags dest8 i4)) = (sint (fst (DECB flags dest8 i4)) < 0)"
    by (simp add: DECB_def Let_def flag_reads bit7_sint)
  have "get_flag F_PV (snd (DECB flags dest8 i4)) = sub_overflow_byte dest8 ?val (dest8 - ?val)"
    by (simp add: DECB_def Let_def flag_reads)
  also have "\<dots> = (sint dest8 - uint ?val < - (2 ^ (LENGTH(8) - 1)))"
    using overflow_as_sign(4) [OF small_not_negative(2) [OF u(2)], of dest8 "dest8 - ?val"]
      sub_wraps_iff [of ?val dest8] u(2)
    by simp
  finally show "get_flag F_PV (snd (DECB flags dest8 i4)) = (sint dest8 - (uint i4 + 1) < - 128)"
    unfolding u(1) by simp
  show "get_flag F_H (snd (DECB flags dest8 i4)) = (uint dest8 mod 16 < (uint i4 + 1) mod 16)"
    unfolding u(1) [symmetric]
    by (simp add: DECB_def Let_def flag_reads sub_half_borrow_iff)
  show "snd (DECB flags dest8 i4) AND NOT (F_Z OR F_S OR F_PV OR F_H) =
     flags AND NOT (F_Z OR F_S OR F_PV OR F_H)"
    unfolding DECB_def Let_def snd_conv by (rule zsvh_frame)
qed

lemma INC_example:
  "fst (INCW flags 0x7FFF 0) = 0x8000"
  "get_flag F_S (snd (INCW flags 0x7FFF 0))"
  "get_flag F_PV (snd (INCW flags 0x7FFF 0))"
  using INCW_flags(1,4,5) [of flags "0x7FFF" 0] by simp_all

text \<open>
  C7. For every FCW, every operand and every 4-bit field \<open>i4\<close> of the instruction,
  that is every amount n = \<open>i4\<close> + 1 in 1..16, INC and DEC on words and on bytes leave the
  C flag as it was, and with it every bit of the FCW other than Z, S, P/V and H. Z is
  set iff the result is zero, S iff the result is negative, V iff the signed sum or
  difference lies outside the signed range of the operand (the wrap across the signed
  boundary), and H iff the addition carries out of, or the subtraction borrows into,
  the low 12 bits of a word (the low 4 bits of a byte). The scenario of the
  specification is the instance INC of 0x7FFF by 1: the result is 0x8000 with S and V
  set.
\<close>

theorem inc_dec_flags:
  "fst (INCW flags dest i4) = dest + (ucast i4 + 1) \<and>
   get_flag F_C (snd (INCW flags dest i4)) = get_flag F_C flags \<and>
   get_flag F_Z (snd (INCW flags dest i4)) = (fst (INCW flags dest i4) = 0) \<and>
   get_flag F_S (snd (INCW flags dest i4)) = (sint (fst (INCW flags dest i4)) < 0) \<and>
   get_flag F_PV (snd (INCW flags dest i4)) = (32767 < sint dest + (uint i4 + 1)) \<and>
   get_flag F_H (snd (INCW flags dest i4)) = (4096 \<le> uint dest mod 4096 + (uint i4 + 1)) \<and>
   snd (INCW flags dest i4) AND NOT (F_Z OR F_S OR F_PV OR F_H) =
     flags AND NOT (F_Z OR F_S OR F_PV OR F_H) \<and>
   fst (DECW flags dest i4) = dest - (ucast i4 + 1) \<and>
   get_flag F_C (snd (DECW flags dest i4)) = get_flag F_C flags \<and>
   get_flag F_Z (snd (DECW flags dest i4)) = (fst (DECW flags dest i4) = 0) \<and>
   get_flag F_S (snd (DECW flags dest i4)) = (sint (fst (DECW flags dest i4)) < 0) \<and>
   get_flag F_PV (snd (DECW flags dest i4)) = (sint dest - (uint i4 + 1) < - 32768) \<and>
   get_flag F_H (snd (DECW flags dest i4)) = (uint dest mod 4096 < uint i4 + 1) \<and>
   snd (DECW flags dest i4) AND NOT (F_Z OR F_S OR F_PV OR F_H) =
     flags AND NOT (F_Z OR F_S OR F_PV OR F_H) \<and>
   fst (INCB flags dest8 i4) = dest8 + (ucast i4 + 1) \<and>
   get_flag F_C (snd (INCB flags dest8 i4)) = get_flag F_C flags \<and>
   get_flag F_Z (snd (INCB flags dest8 i4)) = (fst (INCB flags dest8 i4) = 0) \<and>
   get_flag F_S (snd (INCB flags dest8 i4)) = (sint (fst (INCB flags dest8 i4)) < 0) \<and>
   get_flag F_PV (snd (INCB flags dest8 i4)) = (127 < sint dest8 + (uint i4 + 1)) \<and>
   get_flag F_H (snd (INCB flags dest8 i4)) = (16 \<le> uint dest8 mod 16 + (uint i4 + 1) mod 16) \<and>
   snd (INCB flags dest8 i4) AND NOT (F_Z OR F_S OR F_PV OR F_H) =
     flags AND NOT (F_Z OR F_S OR F_PV OR F_H) \<and>
   fst (DECB flags dest8 i4) = dest8 - (ucast i4 + 1) \<and>
   get_flag F_C (snd (DECB flags dest8 i4)) = get_flag F_C flags \<and>
   get_flag F_Z (snd (DECB flags dest8 i4)) = (fst (DECB flags dest8 i4) = 0) \<and>
   get_flag F_S (snd (DECB flags dest8 i4)) = (sint (fst (DECB flags dest8 i4)) < 0) \<and>
   get_flag F_PV (snd (DECB flags dest8 i4)) = (sint dest8 - (uint i4 + 1) < - 128) \<and>
   get_flag F_H (snd (DECB flags dest8 i4)) = (uint dest8 mod 16 < (uint i4 + 1) mod 16) \<and>
   snd (DECB flags dest8 i4) AND NOT (F_Z OR F_S OR F_PV OR F_H) =
     flags AND NOT (F_Z OR F_S OR F_PV OR F_H) \<and>
   fst (INCW flags 0x7FFF 0) = 0x8000 \<and>
   get_flag F_S (snd (INCW flags 0x7FFF 0)) \<and>
   get_flag F_PV (snd (INCW flags 0x7FFF 0))"
  by (intro conjI INCW_flags DECW_flags INCB_flags DECB_flags INC_example)

subsection \<open>Block instructions\<close>








lemma blk_trap_pc: "blk_trap i (s\<lparr>pc := a\<rparr>) = blk_trap i s"
  by (simp add: blk_trap_def)



text \<open>An instruction that traps: one pass, through the trap entry, and nothing else.\<close>

lemma execute_block_trap:
  "blk_trap i s = Some T \<Longrightarrow>
   execute_block h i s =
     (False, True, (trap_entry h T 0 (s\<lparr>pc := pc s + 4\<rparr>))\<lparr>block_reexec := False\<rparr>)"
  by (simp add: execute_block_def block_step_def blk_trap_pc)

lemma run_block_trap:
  "blk_trap i s = Some T \<Longrightarrow>
   run_block (Suc k) h i s =
     Some [(False, (trap_entry h T 0 (s\<lparr>pc := pc s + 4\<rparr>))\<lparr>block_reexec := False\<rparr>)]"
  by (simp add: execute_block_trap)

lemma normal_mode_inir_state_simps:
  "regs normal_mode_inir_state =
     set_RW ENDIANNESS_LITTLE
       (set_RW ENDIANNESS_LITTLE (set_RW ENDIANNESS_LITTLE (\<lambda>_. 0) 15 0x1E00) 4 0x1200) 6 3"
  "mem normal_mode_inir_state = normal_mode_memory"
  "pc normal_mode_inir_state = 0x0100" "fcw normal_mode_inir_state = 0"
  "psap normal_mode_inir_state = 0"
  by (simp_all add: normal_mode_inir_state_def cpu_create_simps normal_mode_memory_def
        memory_reads)

text \<open>
  INIR in normal mode, and LDIR through register 0 in system mode: the handler traps,
  the count register keeps its value 3 and nothing is transferred.
\<close>

lemma inir_in_normal_mode:
  "blk_trap (BLK_IN WORD INCREMENT True 4 5 6) normal_mode_inir_state = Some TRAP_PRIVILEGED"
  "execute_block ENDIANNESS_LITTLE (BLK_IN WORD INCREMENT True 4 5 6) normal_mode_inir_state =
     (False, True,
      (trap_entry ENDIANNESS_LITTLE TRAP_PRIVILEGED 0 (normal_mode_inir_state\<lparr>pc := 0x0104\<rparr>))
        \<lparr>block_reexec := False\<rparr>)"
  "RW ENDIANNESS_LITTLE
     (regs (snd (snd (execute_block ENDIANNESS_LITTLE (BLK_IN WORD INCREMENT True 4 5 6)
        normal_mode_inir_state)))) 6 = 3"
  "RW ENDIANNESS_LITTLE
     (regs (snd (snd (execute_block ENDIANNESS_LITTLE (BLK_IN WORD INCREMENT True 4 5 6)
        normal_mode_inir_state)))) 15 = 0x1DFC"
  "fcw (snd (snd (execute_block ENDIANNESS_LITTLE (BLK_IN WORD INCREMENT True 4 5 6)
        normal_mode_inir_state))) = 0x4000"
  "pc (snd (snd (execute_block ENDIANNESS_LITTLE (BLK_IN WORD INCREMENT True 4 5 6)
        normal_mode_inir_state))) = 0x0080"
proof -
  show t: "blk_trap (BLK_IN WORD INCREMENT True 4 5 6) normal_mode_inir_state
             = Some TRAP_PRIVILEGED"
    by (simp add: blk_trap_def normal_mode_inir_state_simps get_flag_def)
  show e: "execute_block ENDIANNESS_LITTLE (BLK_IN WORD INCREMENT True 4 5 6)
        normal_mode_inir_state =
     (False, True,
      (trap_entry ENDIANNESS_LITTLE TRAP_PRIVILEGED 0 (normal_mode_inir_state\<lparr>pc := 0x0104\<rparr>))
        \<lparr>block_reexec := False\<rparr>)"
    using execute_block_trap [OF t, of ENDIANNESS_LITTLE]
    by (simp add: normal_mode_inir_state_simps)
  show "RW ENDIANNESS_LITTLE
     (regs (snd (snd (execute_block ENDIANNESS_LITTLE (BLK_IN WORD INCREMENT True 4 5 6)
        normal_mode_inir_state)))) 6 = 3"
    unfolding e
    by (simp add: trap_entry_privileged Let_def normal_mode_inir_state_simps RW_set_RW)
  show "RW ENDIANNESS_LITTLE
     (regs (snd (snd (execute_block ENDIANNESS_LITTLE (BLK_IN WORD INCREMENT True 4 5 6)
        normal_mode_inir_state)))) 15 = 0x1DFC"
    unfolding e
    by (simp add: trap_entry_privileged Let_def normal_mode_inir_state_simps RW_set_RW)
  show "fcw (snd (snd (execute_block ENDIANNESS_LITTLE (BLK_IN WORD INCREMENT True 4 5 6)
        normal_mode_inir_state))) = 0x4000"
    unfolding e
    by (simp add: trap_entry_privileged Let_def normal_mode_inir_state_simps RW_set_RW
          normal_mode_memory_def memory_reads)
  show "pc (snd (snd (execute_block ENDIANNESS_LITTLE (BLK_IN WORD INCREMENT True 4 5 6)
        normal_mode_inir_state))) = 0x0080"
    unfolding e
    by (simp add: trap_entry_privileged Let_def normal_mode_inir_state_simps RW_set_RW
          normal_mode_memory_def memory_reads)
qed

lemma ldir_through_register_0:
  "blk_trap (BLK_LD WORD INCREMENT True 0 4 6) s = Some TRAP_EXTENDED"
  "blk_trap (BLK_LD WORD INCREMENT True 5 0 6) s = Some TRAP_EXTENDED"
  by (simp_all add: blk_trap_def)






lemma cpir_state_simps:
  "regs cpir_state =
     set_RW ENDIANNESS_LITTLE
       (set_RW ENDIANNESS_LITTLE (set_RW ENDIANNESS_LITTLE (\<lambda>_. 0) 3 0x3333) 4 0x1000) 5 5"
  "mem cpir_state = cpir_memory" "pc cpir_state = 0x0100" "fcw cpir_state = 0x4000"
  by (simp_all add: cpir_state_def cpu_create_simps cpir_memory_def reset_vector_def memory_reads)

lemma cpir_memory_words:
  "read_word cpir_memory 0x1000 = 0x1111" "read_word cpir_memory 0x1002 = 0x2222"
  "read_word cpir_memory 0x1004 = 0x3333" "read_word cpir_memory 0x1006 = 0x4444"
  "read_word cpir_memory 0x1008 = 0x5555"
  by (simp_all add: cpir_memory_def reset_vector_def memory_reads)



subsection \<open>CPIR with an early match\<close>

lemma CPW_zero: "get_flag F_Z (CPW w a b) = (a = b)"
  by (simp add: CPW_def Let_def flag_reads)

lemma CPB_zero: "get_flag F_Z (CPB w a b) = (a = b)"
  by (simp add: CPB_def Let_def flag_reads)

lemma execute_block_CPIR:
  "src \<noteq> 0 \<Longrightarrow>
   execute_block h (BLK_CPW INCREMENT True rd src cnt CC_Z) s =
     (let a = RW h (regs s) rd; b = read_word (mem s) (RW h (regs s) src);
          r1 = set_RW h (regs s) src (RW h (regs s) src + 2);
          c = RW h r1 cnt - 1;
          fin = (c = 0 \<or> a = b)
      in (a = b, fin,
          s\<lparr>pc := (if fin then pc s + 4 else pc s),
            fcw := set_flag F_PV (c = 0) (CPW (fcw s) a b),
            regs := set_RW h r1 cnt c,
            block_reexec := False\<rparr>))"
  by (auto simp add: execute_block_def block_step_def blk_trap_def Let_def count_down_def
        advance_def CPW_zero RW_set_RW)

text \<open>
  C5. In every state with R3 = 0x3333, R4 = 0x1000, R5 = 5 and the words 0x1111, 0x2222,
  0x3333, 0x4444, 0x5555 in memory from 0x1000 on, CPIR R3, @R4, R5, eq terminates at
  its third iteration, with Z set, R4 = 0x1006, R5 = 2 and PC behind the instruction.
\<close>

theorem cpir_early_match:
  assumes "RW h (regs s) 3 = 0x3333" and "RW h (regs s) 4 = 0x1000" and "RW h (regs s) 5 = 5"
    and "read_word (mem s) 0x1000 = 0x1111" and "read_word (mem s) 0x1002 = 0x2222"
    and "read_word (mem s) 0x1004 = 0x3333" and "read_word (mem s) 0x1006 = 0x4444"
    and "read_word (mem s) 0x1008 = 0x5555"
  shows "\<exists>tr. run_block (Suc (Suc (Suc k))) h (BLK_CPW INCREMENT True 3 4 5 CC_Z) s = Some tr \<and>
           length tr = 3 \<and>
           get_flag F_Z (fcw (snd (last tr))) \<and>
           RW h (regs (snd (last tr))) 4 = 0x1006 \<and>
           RW h (regs (snd (last tr))) 5 = 2 \<and>
           pc (snd (last tr)) = pc s + 4"
  using assms
  by (simp add: execute_block_CPIR Let_def RW_set_RW flag_reads CPW_zero)

theorem cpir_early_match_witness:
  "RW ENDIANNESS_LITTLE (regs cpir_state) 3 = 0x3333 \<and>
   RW ENDIANNESS_LITTLE (regs cpir_state) 4 = 0x1000 \<and>
   RW ENDIANNESS_LITTLE (regs cpir_state) 5 = 5 \<and>
   read_word (mem cpir_state) 0x1000 = 0x1111 \<and> read_word (mem cpir_state) 0x1002 = 0x2222 \<and>
   read_word (mem cpir_state) 0x1004 = 0x3333 \<and> read_word (mem cpir_state) 0x1006 = 0x4444 \<and>
   read_word (mem cpir_state) 0x1008 = 0x5555 \<and>
   (\<exists>tr. run_block 3 ENDIANNESS_LITTLE (BLK_CPW INCREMENT True 3 4 5 CC_Z) cpir_state = Some tr \<and>
      length tr = 3 \<and>
      get_flag F_Z (fcw (snd (last tr))) \<and>
      RW ENDIANNESS_LITTLE (regs (snd (last tr))) 4 = 0x1006 \<and>
      RW ENDIANNESS_LITTLE (regs (snd (last tr))) 5 = 2 \<and>
      pc (snd (last tr)) = 0x0104)"
proof -
  have r: "RW ENDIANNESS_LITTLE (regs cpir_state) 3 = 0x3333"
    "RW ENDIANNESS_LITTLE (regs cpir_state) 4 = 0x1000"
    "RW ENDIANNESS_LITTLE (regs cpir_state) 5 = 5"
    by (simp_all add: cpir_state_simps RW_set_RW)
  have m: "read_word (mem cpir_state) 0x1000 = 0x1111" "read_word (mem cpir_state) 0x1002 = 0x2222"
    "read_word (mem cpir_state) 0x1004 = 0x3333" "read_word (mem cpir_state) 0x1006 = 0x4444"
    "read_word (mem cpir_state) 0x1008 = 0x5555"
    by (simp_all add: cpir_state_simps cpir_memory_words)
  have p: "pc cpir_state + 4 = 0x0104"
    by (simp add: cpir_state_simps)
  have n: "Suc (Suc (Suc 0)) = 3"
    by simp
  show ?thesis
    using cpir_early_match [OF r m, of 0 ] r m unfolding p n by simp
qed

end
